theory Spec2Isabelle
  imports Complex_Main "HOL-Library.Sublist"
begin

section \<open>Tables, columns and cells\<close>

text \<open>
  The cleaning scripts \<^verbatim>\<open>Cleaning.py\<close> and \<^verbatim>\<open>Basic_Analysis/CleaningDeep.py\<close>
  transform pandas data frames. A data frame is modelled as the list of its columns in
  column order, each with its name; a column carries its dtype as a constructor, so that
  an \<^verbatim>\<open>int64\<close> column cannot hold a missing value while a \<^verbatim>\<open>float64\<close>,
  an \<^verbatim>\<open>object\<close> or a \<^verbatim>\<open>datetime64\<close> column can (\<open>None\<close> is NaN, None or NaT).
  Floating point numbers are modelled by exact reals: rounding, infinities and overflow are
  outside the model. Rows are addressed by position. A column is looked up by its name, and
  the theorems are about tables whose column names are distinct, as \<^verbatim>\<open>read_csv\<close> makes
  them.
\<close>

datatype py_error = IndexError | Unsupported

datatype month = Jan | Feb | Mar | Apr | May | Jun | Jul | Aug | Sep | Oct | Nov | Dec

datatype timestamp = Timestamp (ts_year: int) (ts_month: month) (ts_day: nat) (ts_time: nat)

datatype pyobj = PStr string | PInt int | PFloat real | PBool bool

datatype pynum = NInt int | NFloat real

datatype column =
    IntCol "int list"
  | FloatCol "real option list"
  | BoolCol "bool list"
  | ObjCol "pyobj option list"
  | DateCol "timestamp option list"

type_synonym dataframe = "(string \<times> column) list"

text \<open>
  What the scripts take from the pandas library cell by cell, and do not define themselves,
  is a parameter of the model: how one cell parses as a date (\<^verbatim>\<open>pd.to_datetime\<close>,
  \<open>None\<close> when it does not parse), as a number (\<^verbatim>\<open>pd.to_numeric\<close>) or as an
  integer (\<^verbatim>\<open>astype(int)\<close>), how a column prints (\<^verbatim>\<open>astype(str)\<close>), the
  string clean-up of \<^verbatim>\<open>.str.strip().str.lower().str.replace\<close> on one cell, the first
  mode of a non-empty list of values, and the integer view of a datetime.
\<close>

record pandas =
  to_datetime_cell :: "pyobj \<Rightarrow> timestamp option"
  to_numeric_cell :: "pyobj \<Rightarrow> pynum option"
  astype_int_cell :: "pyobj \<Rightarrow> int option"
  astype_str :: "column \<Rightarrow> string list"
  str_clean_cell :: "pyobj \<Rightarrow> pyobj option"
  mode_obj :: "pyobj list \<Rightarrow> pyobj"
  mode_date :: "timestamp list \<Rightarrow> timestamp"
  datetime_int :: "timestamp option \<Rightarrow> int"

definition columns :: "dataframe \<Rightarrow> string list" where
  "columns df = map fst df"

fun col_len :: "column \<Rightarrow> nat" where
  "col_len (IntCol xs) = length xs"
| "col_len (FloatCol xs) = length xs"
| "col_len (BoolCol xs) = length xs"
| "col_len (ObjCol xs) = length xs"
| "col_len (DateCol xs) = length xs"

definition nrows :: "dataframe \<Rightarrow> nat" where
  "nrows df = (case df of [] \<Rightarrow> 0 | (n, c) # _ \<Rightarrow> col_len c)"

definition well_formed :: "dataframe \<Rightarrow> bool" where
  "well_formed df = (distinct (columns df) \<and> list_all (\<lambda>(n, c). col_len c = nrows df) df)"

definition has_col :: "dataframe \<Rightarrow> string \<Rightarrow> bool" where
  "has_col df k = (k \<in> set (columns df))"

definition get_col :: "dataframe \<Rightarrow> string \<Rightarrow> column option" where
  "get_col df k = map_of df k"

text \<open>\<^verbatim>\<open>df[c] = col\<close>: replaces the column of that name, or appends a new one.\<close>

definition set_col :: "dataframe \<Rightarrow> string \<Rightarrow> column \<Rightarrow> dataframe" where
  "set_col df k col =
     (if has_col df k then map (\<lambda>(n, c). if n = k then (n, col) else (n, c)) df
      else df @ [(k, col)])"

fun isnull :: "column \<Rightarrow> bool list" where
  "isnull (IntCol xs) = map (\<lambda>_. False) xs"
| "isnull (FloatCol xs) = map (\<lambda>x. x = None) xs"
| "isnull (BoolCol xs) = map (\<lambda>_. False) xs"
| "isnull (ObjCol xs) = map (\<lambda>x. x = None) xs"
| "isnull (DateCol xs) = map (\<lambda>x. x = None) xs"

text \<open>Boolean indexing \<^verbatim>\<open>xs[mask]\<close>: the entries whose mask bit is set, in order.\<close>

definition select :: "bool list \<Rightarrow> 'a list \<Rightarrow> 'a list" where
  "select bs xs = map snd (filter fst (zip bs xs))"

fun col_select :: "bool list \<Rightarrow> column \<Rightarrow> column" where
  "col_select bs (IntCol xs) = IntCol (select bs xs)"
| "col_select bs (FloatCol xs) = FloatCol (select bs xs)"
| "col_select bs (BoolCol xs) = BoolCol (select bs xs)"
| "col_select bs (ObjCol xs) = ObjCol (select bs xs)"
| "col_select bs (DateCol xs) = DateCol (select bs xs)"

definition filter_rows :: "bool list \<Rightarrow> dataframe \<Rightarrow> dataframe" where
  "filter_rows bs df = map (\<lambda>(n, c). (n, col_select bs c)) df"

text \<open>
  The numeric view of a column: \<^verbatim>\<open>select_dtypes(include='number')\<close> takes the integer and
  the float columns (not the boolean ones), and statistics read an integer as a float.
\<close>

fun num_view :: "column \<Rightarrow> real option list option" where
  "num_view (IntCol xs) = Some (map (\<lambda>i. Some (of_int i)) xs)"
| "num_view (FloatCol xs) = Some xs"
| "num_view _ = None"

definition is_number :: "column \<Rightarrow> bool" where
  "is_number c = (num_view c \<noteq> None)"

definition number_columns :: "dataframe \<Rightarrow> string list" where
  "number_columns df = map fst (filter (\<lambda>(n, c). is_number c) df)"

section \<open>Strings\<close>

text \<open>
  \<^verbatim>\<open>str.lower()\<close> on the bytes of a name: the ASCII capitals are lowered. (Python also
  lowers capitals outside ASCII; none of them lowers to a letter sequence that could complete
  one of the ASCII words searched for below.) \<^verbatim>\<open>k in s\<close> on strings is the substring
  test.
\<close>

definition lower_char :: "char \<Rightarrow> char" where
  "lower_char c =
     (case map_of (zip ''ABCDEFGHIJKLMNOPQRSTUVWXYZ'' ''abcdefghijklmnopqrstuvwxyz'') c of
        Some l \<Rightarrow> l
      | None \<Rightarrow> c)"

definition lower :: "string \<Rightarrow> string" where
  "lower s = map lower_char s"

fun contains :: "string \<Rightarrow> string \<Rightarrow> bool" where
  "contains sub [] = (sub = [])"
| "contains sub (c # cs) = (prefix sub (c # cs) \<or> contains sub cs)"

section \<open>Cleaning.py\<close>

subsection \<open>Grouping keys\<close>

text \<open>
  \<^verbatim>\<open>create_year_quarter\<close> adds (or overwrites) the column \<^verbatim>\<open>year_quarter\<close> when the
  table has both \<^verbatim>\<open>year\<close> and \<^verbatim>\<open>quarter\<close>.
\<close>

definition create_year_quarter :: "pandas \<Rightarrow> dataframe \<Rightarrow> dataframe" where
  "create_year_quarter env df =
     (case (get_col df ''year'', get_col df ''quarter'') of
        (Some y, Some q) \<Rightarrow>
          set_col df ''year_quarter''
            (ObjCol (map2 (\<lambda>a b. Some (PStr (a @ ''Q'' @ b))) (astype_str env y) (astype_str env q)))
      | _ \<Rightarrow> df)"

definition possible :: "string list" where
  "possible = [''state'', ''city'', ''market'', ''region'', ''building_classification'',
               ''year_quarter'']"

text \<open>\<^verbatim>\<open>keys or defaults\<close>: the defaults exactly when the list of keys is empty.\<close>

definition get_group_keys :: "dataframe \<Rightarrow> string list \<Rightarrow> string list" where
  "get_group_keys df defaults =
     (let keys = filter (\<lambda>k. k \<in> set (columns df)) possible
      in if keys = [] then defaults else keys)"

text \<open>
  The dictionary \<^verbatim>\<open>keys\<close> that \<^verbatim>\<open>main\<close> builds, after \<^verbatim>\<open>create_year_quarter\<close> has run
  on the first three tables, as an association list in the order of its entries.
\<close>

definition main_keys ::
  "pandas \<Rightarrow> dataframe \<Rightarrow> dataframe \<Rightarrow> dataframe \<Rightarrow> dataframe \<Rightarrow> (string \<times> string list) list" where
  "main_keys env leases occupancy price_avail unemp =
     [(''leases'', get_group_keys (create_year_quarter env leases) [''market'', ''year_quarter'']),
      (''occupancy'', get_group_keys (create_year_quarter env occupancy) [''market'', ''year_quarter'']),
      (''price_avail'', get_group_keys (create_year_quarter env price_avail) [''market'', ''year_quarter'']),
      (''unemployment'',
         if {''state'', ''year''} \<subseteq> set (columns unemp) then [''state'', ''year''] else [''year''])]"

subsection \<open>Column statistics\<close>

text \<open>
  pandas statistics skip missing values and are NaN (\<open>None\<close>) when nothing is left: the
  mean of a boolean mask, the median (the middle value, or the mean of the two middle values),
  the quantile with linear interpolation between the two nearest ranks, minimum and maximum.
\<close>

definition present :: "'a option list \<Rightarrow> 'a list" where
  "present xs = map the (filter (\<lambda>x. x \<noteq> None) xs)"

definition mean_bool :: "bool list \<Rightarrow> real option" where
  "mean_bool bs =
     (if bs = [] then None else Some (real (length (filter id bs)) / real (length bs)))"

definition median :: "real option list \<Rightarrow> real option" where
  "median xs =
     (let s = sort (present xs); n = length s
      in if n = 0 then None
         else if odd n then Some (s ! (n div 2))
         else Some ((s ! (n div 2 - 1) + s ! (n div 2)) / 2))"




text \<open>\<^verbatim>\<open>fillna(v)\<close> with a value that is not itself missing.\<close>

definition fillna :: "'a \<Rightarrow> 'a option list \<Rightarrow> 'a option list" where
  "fillna v xs = map (\<lambda>x. case x of None \<Rightarrow> Some v | Some y \<Rightarrow> Some y) xs"

text \<open>
  The loop \<^verbatim>\<open>for k in ks: df[k] = f(k, df[k])\<close>, which several functions of both
  scripts are instances of. (A name of \<open>ks\<close> is always a column of the table in the scripts;
  the lookup of a name that is none leaves the table as it is.)
\<close>

definition assign_each ::
  "(string \<Rightarrow> column \<Rightarrow> column) \<Rightarrow> string list \<Rightarrow> dataframe \<Rightarrow> dataframe" where
  "assign_each f ks df =
     fold (\<lambda>k d. case get_col d k of None \<Rightarrow> d | Some c \<Rightarrow> set_col d k (f k c)) ks df"

subsection \<open>The group cleaner\<close>

text \<open>
  \<^verbatim>\<open>r = g.notnull().mean(axis=1)\<close> is the share of non-missing cells of each row,
  \<^verbatim>\<open>m = g.isnull().mean()\<close> the share of missing cells of each column.
\<close>

definition row_completeness :: "dataframe \<Rightarrow> real option list" where
  "row_completeness g =
     map (\<lambda>i. mean_bool (map (\<lambda>(n, c). \<not> isnull c ! i) g)) [0..<nrows g]"

definition col_missingness :: "dataframe \<Rightarrow> (string \<times> real option) list" where
  "col_missingness g = map (\<lambda>(n, c). (n, mean_bool (isnull c))) g"

text \<open>
  \<^verbatim>\<open>g['year'].iloc[0] == 2018\<close>: the first cell of the column compared with the integer
  2018 (a float 2018.0 is equal to it, a string, a boolean, a date or a missing value is not);
  \<^verbatim>\<open>iloc[0]\<close> raises on a column with no rows.
\<close>

fun iloc0_is_2018 :: "column \<Rightarrow> py_error + bool" where
  "iloc0_is_2018 (IntCol (x # _)) = Inr (x = 2018)"
| "iloc0_is_2018 (FloatCol (x # _)) = Inr (x = Some 2018)"
| "iloc0_is_2018 (BoolCol (x # _)) = Inr False"
| "iloc0_is_2018 (ObjCol (x # _)) = Inr (x = Some (PInt 2018) \<or> x = Some (PFloat 2018))"
| "iloc0_is_2018 (DateCol (x # _)) = Inr False"
| "iloc0_is_2018 _ = Inl IndexError"

definition year_is_2018 :: "dataframe \<Rightarrow> py_error + bool" where
  "year_is_2018 g = (case get_col g ''year'' of None \<Rightarrow> Inr False | Some c \<Rightarrow> iloc0_is_2018 c)"

text \<open>
  Python's \<^verbatim>\<open>max(a, b)\<close> is \<open>b\<close> when \<open>b > a\<close> and \<open>a\<close> otherwise, also when \<open>b\<close>
  is NaN; \<^verbatim>\<open>min(a, b)\<close> likewise.
\<close>

definition py_max :: "real \<Rightarrow> real option \<Rightarrow> real" where
  "py_max a b = (case b of None \<Rightarrow> a | Some x \<Rightarrow> if x > a then x else a)"

definition py_min :: "real \<Rightarrow> real option \<Rightarrow> real" where
  "py_min a b = (case b of None \<Rightarrow> a | Some x \<Rightarrow> if x < a then x else a)"

definition thresholds :: "dataframe \<Rightarrow> py_error + real \<times> real" where
  "thresholds g =
     (let r = row_completeness g; m = col_missingness g
      in case year_is_2018 g of
           Inl e \<Rightarrow> Inl e
         | Inr y \<Rightarrow>
             if y then Inr (0.4, 0.6)
             else Inr (py_max 0.2 (map_option (\<lambda>x. x - 0.1) (median r)),
                       py_min 0.9 (map_option (\<lambda>x. x + 0.1) (median (map snd m)))))"

text \<open>\<^verbatim>\<open>x >= t\<close> on a float that may be NaN: false on NaN.\<close>

definition ge_thresh :: "real \<Rightarrow> real option \<Rightarrow> bool" where
  "ge_thresh t x = (case x of None \<Rightarrow> False | Some v \<Rightarrow> t \<le> v)"

text \<open>Lines 25 to 35 of \<^verbatim>\<open>dynamic_clean_group\<close>: the sparse rows and columns are dropped.\<close>

definition drop_sparse :: "dataframe \<Rightarrow> py_error + dataframe" where
  "drop_sparse g =
     (case thresholds g of
        Inl e \<Rightarrow> Inl e
      | Inr (row_thresh, col_thresh) \<Rightarrow>
          let r = row_completeness g; m = col_missingness g;
              g1 = filter_rows (map (ge_thresh row_thresh) r) g;
              drop_cols = map fst (filter (\<lambda>(n, x). ge_thresh col_thresh x) m)
          in Inr (filter (\<lambda>(n, c). n \<notin> set drop_cols) g1))"

text \<open>
  Lines 36 to 41: a numeric column (\<^verbatim>\<open>is_numeric_dtype\<close>: integer, float or boolean) is
  filled with its median, which fills nothing when the median is NaN; any other column with
  its first mode, or with the empty string when it has no value at all. The in-place
  \<^verbatim>\<open>fillna\<close> on \<^verbatim>\<open>g[c]\<close> reaches the table, as it does in pandas before version 3.
  (No datetime column reaches the group cleaner in \<^verbatim>\<open>main\<close>, which applies it to tables
  as read from CSV; filling one that has rows and no value with the empty string makes it an
  object column.)
\<close>

fun fill_group_col :: "pandas \<Rightarrow> column \<Rightarrow> column" where
  "fill_group_col env (IntCol xs) = IntCol xs"
| "fill_group_col env (FloatCol xs) =
     (case median xs of None \<Rightarrow> FloatCol xs | Some md \<Rightarrow> FloatCol (fillna md xs))"
| "fill_group_col env (BoolCol xs) = BoolCol xs"
| "fill_group_col env (ObjCol xs) =
     ObjCol (fillna (if present xs = [] then PStr [] else mode_obj env (present xs)) xs)"
| "fill_group_col env (DateCol xs) =
     (if present xs = [] then (if xs = [] then DateCol [] else ObjCol (map (\<lambda>_. Some (PStr [])) xs))
      else DateCol (fillna (mode_date env (present xs)) xs))"

definition dynamic_clean_group :: "pandas \<Rightarrow> dataframe \<Rightarrow> py_error + dataframe" where
  "dynamic_clean_group env g =
     (case drop_sparse g of
        Inl e \<Rightarrow> Inl e
      | Inr g2 \<Rightarrow> Inr (assign_each (\<lambda>k. fill_group_col env) (columns g2) g2))"

subsection \<open>The outlier filter\<close>






subsection \<open>The normalizer\<close>




subsection \<open>Column types\<close>

text \<open>
  \<^verbatim>\<open>pd.to_datetime(col, errors='coerce')\<close>: every cell that does not parse becomes NaT.
\<close>

fun to_datetime :: "pandas \<Rightarrow> column \<Rightarrow> column" where
  "to_datetime env (IntCol xs) = DateCol (map (\<lambda>i. to_datetime_cell env (PInt i)) xs)"
| "to_datetime env (FloatCol xs) =
     DateCol (map (\<lambda>x. Option.bind x (\<lambda>v. to_datetime_cell env (PFloat v))) xs)"
| "to_datetime env (BoolCol xs) = DateCol (map (\<lambda>b. to_datetime_cell env (PBool b)) xs)"
| "to_datetime env (ObjCol xs) = DateCol (map (\<lambda>x. Option.bind x (to_datetime_cell env)) xs)"
| "to_datetime env (DateCol xs) = DateCol xs"

text \<open>
  \<^verbatim>\<open>pd.to_numeric(col, errors='ignore')\<close>, with \<^verbatim>\<open>downcast='integer'\<close> when the flag is
  set. A numeric or boolean column is numeric already; a datetime column is read as integers;
  an object column converts when every cell that is not missing does, to integers when all
  cells are integers and none is missing, to floats otherwise. When a cell does not convert,
  \<^verbatim>\<open>errors='ignore'\<close> returns the column it was given. The downcast turns a float column
  of whole numbers without a missing value into an integer column.
\<close>

definition convert_obj :: "pandas \<Rightarrow> pyobj option list \<Rightarrow> column option" where
  "convert_obj env xs =
     (let ys = map (\<lambda>x. map_option (to_numeric_cell env) x) xs
      in if list_ex (\<lambda>y. y = Some None) ys then None
         else if list_all (\<lambda>y. case y of Some (Some (NInt _)) \<Rightarrow> True | _ \<Rightarrow> False) ys
         then Some (IntCol (map (\<lambda>y. case y of Some (Some (NInt i)) \<Rightarrow> i | _ \<Rightarrow> 0) ys))
         else Some (FloatCol (map (\<lambda>y. case y of Some (Some (NInt i)) \<Rightarrow> Some (of_int i)
                                                 | Some (Some (NFloat r)) \<Rightarrow> Some r
                                                 | _ \<Rightarrow> None) ys)))"

fun downcast_integer :: "column \<Rightarrow> column" where
  "downcast_integer (FloatCol xs) =
     (if list_all (\<lambda>x. case x of None \<Rightarrow> False | Some v \<Rightarrow> v = of_int \<lfloor>v\<rfloor>) xs
      then IntCol (map (\<lambda>x. \<lfloor>the x\<rfloor>) xs) else FloatCol xs)"
| "downcast_integer c = c"

definition to_numeric_ignore :: "pandas \<Rightarrow> bool \<Rightarrow> column \<Rightarrow> column" where
  "to_numeric_ignore env downcast c =
     (let r = (case c of
                 ObjCol xs \<Rightarrow> convert_obj env xs
               | DateCol xs \<Rightarrow> Some (IntCol (map (datetime_int env) xs))
               | _ \<Rightarrow> Some c)
      in case r of None \<Rightarrow> c | Some c' \<Rightarrow> if downcast then downcast_integer c' else c')"

text \<open>
  \<^verbatim>\<open>standardize_dtypes\<close>: a column whose lowered name contains \<^verbatim>\<open>date\<close> is parsed as
  dates; otherwise an object column is cleaned as text (a cell that is not a string becomes
  missing) and any other column goes through \<^verbatim>\<open>to_numeric\<close>.
\<close>

definition standardize_col :: "pandas \<Rightarrow> string \<Rightarrow> column \<Rightarrow> column" where
  "standardize_col env k c =
     (if contains ''date'' (lower k) then to_datetime env c
      else case c of
             ObjCol xs \<Rightarrow> ObjCol (map (\<lambda>x. Option.bind x (str_clean_cell env)) xs)
           | _ \<Rightarrow> to_numeric_ignore env False c)"

definition standardize_dtypes :: "pandas \<Rightarrow> dataframe \<Rightarrow> dataframe" where
  "standardize_dtypes env df = assign_each (standardize_col env) (columns df) df"

section \<open>Basic_Analysis/CleaningDeep.py\<close>

subsection \<open>Date columns\<close>

definition date_like :: "string \<Rightarrow> bool" where
  "date_like c = list_ex (\<lambda>k. contains k (lower c)) [''date'', ''signed'']"

definition parse_date_columns :: "pandas \<Rightarrow> dataframe \<Rightarrow> dataframe" where
  "parse_date_columns env df =
     assign_each (\<lambda>k. to_datetime env) (filter date_like (columns df)) df"

subsection \<open>Year, quarter and month from the dates\<close>

fun month_num :: "month \<Rightarrow> int" where
  "month_num Jan = 1" | "month_num Feb = 2" | "month_num Mar = 3" | "month_num Apr = 4"
| "month_num May = 5" | "month_num Jun = 6" | "month_num Jul = 7" | "month_num Aug = 8"
| "month_num Sep = 9" | "month_num Oct = 10" | "month_num Nov = 11" | "month_num Dec = 12"

text \<open>\<^verbatim>\<open>Timestamp.quarter\<close>: the months 1 to 3 are quarter 1, and so on.\<close>

definition quarter :: "timestamp \<Rightarrow> int" where
  "quarter d = (month_num (ts_month d) - 1) div 3 + 1"

fun is_datetime :: "column \<Rightarrow> bool" where
  "is_datetime (DateCol _) = True"
| "is_datetime _ = False"

definition dt_cols :: "dataframe \<Rightarrow> string list" where
  "dt_cols df = map fst (filter (\<lambda>(n, c). is_datetime c) df)"

text \<open>\<^verbatim>\<open>k in df.columns and pd.notnull(df.at[idx, k])\<close>.\<close>

definition row_has :: "dataframe \<Rightarrow> nat \<Rightarrow> string \<Rightarrow> bool" where
  "row_has df idx k = (case get_col df k of None \<Rightarrow> False | Some c \<Rightarrow> \<not> isnull c ! idx)"

definition date_at :: "dataframe \<Rightarrow> nat \<Rightarrow> string \<Rightarrow> timestamp option" where
  "date_at df idx k = (case get_col df k of Some (DateCol xs) \<Rightarrow> xs ! idx | _ \<Rightarrow> None)"

text \<open>The inner loop: the first date column, in column order, whose cell of the row is valid.\<close>

fun first_valid_date :: "dataframe \<Rightarrow> nat \<Rightarrow> string list \<Rightarrow> timestamp option" where
  "first_valid_date df idx [] = None"
| "first_valid_date df idx (c # cs) =
     (case date_at df idx c of Some d \<Rightarrow> Some d | None \<Rightarrow> first_valid_date df idx cs)"

text \<open>
  \<^verbatim>\<open>df.at[idx, k] = v\<close> with an integer \<open>v\<close>: a float cell takes it as a float, an object
  cell as the integer it is. The function stores only into cells that are missing, which an
  integer or a boolean column does not have; datetime columns are kept from it below.
\<close>

fun col_set_int :: "nat \<Rightarrow> int \<Rightarrow> column \<Rightarrow> column" where
  "col_set_int i v (IntCol xs) = IntCol (xs[i := v])"
| "col_set_int i v (FloatCol xs) = FloatCol (xs[i := Some (of_int v)])"
| "col_set_int i v (ObjCol xs) = ObjCol (xs[i := Some (PInt v)])"
| "col_set_int i v c = c"

definition set_at :: "dataframe \<Rightarrow> nat \<Rightarrow> string \<Rightarrow> int \<Rightarrow> dataframe" where
  "set_at df idx k v =
     (case get_col df k of None \<Rightarrow> df | Some c \<Rightarrow> set_col df k (col_set_int idx v c))"

text \<open>The body of the loop over the rows, lines 29 to 55.\<close>

definition fill_row :: "string list \<Rightarrow> nat \<Rightarrow> dataframe \<Rightarrow> dataframe" where
  "fill_row dts idx df =
     (let row_has_year = row_has df idx ''year'';
          row_has_quarter = row_has df idx ''quarter'';
          row_has_month = row_has df idx ''month''
      in if row_has_year \<and> row_has_quarter \<and> row_has_month then df
         else case first_valid_date df idx dts of
                None \<Rightarrow> df
              | Some date_val \<Rightarrow>
                  (let df1 = (if has_col df ''year'' \<and> \<not> row_has_year
                              then set_at df idx ''year'' (ts_year date_val) else df);
                       df2 = (if has_col df1 ''month'' \<and> \<not> row_has_month
                              then set_at df1 idx ''month'' (month_num (ts_month date_val)) else df1);
                       df3 = (if has_col df2 ''quarter'' \<and> \<not> row_has_quarter
                              then set_at df2 idx ''quarter'' (quarter date_val) else df2)
                   in df3))"

text \<open>
  Lines 58 to 61: \<^verbatim>\<open>fillna(0)\<close>, then \<^verbatim>\<open>astype(int, errors='ignore')\<close>, which truncates
  a float towards zero and returns the column it was given when a cell does not convert
  (a missing value does not).
\<close>

fun fillna0 :: "column \<Rightarrow> column" where
  "fillna0 (FloatCol xs) = FloatCol (fillna 0 xs)"
| "fillna0 (ObjCol xs) = ObjCol (fillna (PInt 0) xs)"
| "fillna0 c = c"

definition trunc :: "real \<Rightarrow> int" where
  "trunc x = (if 0 \<le> x then \<lfloor>x\<rfloor> else \<lceil>x\<rceil>)"

fun astype_int_ignore :: "pandas \<Rightarrow> column \<Rightarrow> column" where
  "astype_int_ignore env (IntCol xs) = IntCol xs"
| "astype_int_ignore env (FloatCol xs) =
     (if list_ex (\<lambda>x. x = None) xs then FloatCol xs else IntCol (map (\<lambda>x. trunc (the x)) xs))"
| "astype_int_ignore env (BoolCol xs) = IntCol (map (\<lambda>b. if b then 1 else 0) xs)"
| "astype_int_ignore env (ObjCol xs) =
     (let ys = map (\<lambda>x. Option.bind x (astype_int_cell env)) xs
      in if list_ex (\<lambda>y. y = None) ys then ObjCol xs else IntCol (map the ys))"
| "astype_int_ignore env (DateCol xs) = DateCol xs"

definition time_fields :: "string list" where
  "time_fields = [''year'', ''quarter'', ''month'']"

definition zero_fill_time_fields :: "pandas \<Rightarrow> dataframe \<Rightarrow> dataframe" where
  "zero_fill_time_fields env df =
     assign_each (\<lambda>k c. astype_int_ignore env (fillna0 c)) (filter (has_col df) time_fields) df"

text \<open>
  \<^verbatim>\<open>fill_year_qtr_month_from_date\<close>. Without a datetime column the table is returned at
  once. The columns \<^verbatim>\<open>year\<close>, \<^verbatim>\<open>quarter\<close> and \<^verbatim>\<open>month\<close> are not datetime columns
  when the function is called from \<^verbatim>\<open>minimal_clean_with_dates\<close>; what pandas does when
  an integer is stored into a datetime column depends on its version, and the model answers
  \<open>Unsupported\<close> for such a table.
\<close>

definition fill_year_qtr_month_from_date :: "pandas \<Rightarrow> dataframe \<Rightarrow> py_error + dataframe" where
  "fill_year_qtr_month_from_date env df =
     (let dts = dt_cols df
      in if dts = [] then Inr df
         else if list_ex (\<lambda>k. k \<in> set dts) time_fields then Inl Unsupported
         else Inr (zero_fill_time_fields env (fold (fill_row dts) [0..<nrows df] df)))"

subsection \<open>The minimal pipeline\<close>

text \<open>
  \<^verbatim>\<open>drop_duplicates()\<close> keeps the first of the rows that are equal cell by cell (two missing
  values count as equal).
\<close>

fun same_cell :: "column \<Rightarrow> nat \<Rightarrow> nat \<Rightarrow> bool" where
  "same_cell (IntCol xs) i j = (xs ! i = xs ! j)"
| "same_cell (FloatCol xs) i j = (xs ! i = xs ! j)"
| "same_cell (BoolCol xs) i j = (xs ! i = xs ! j)"
| "same_cell (ObjCol xs) i j = (xs ! i = xs ! j)"
| "same_cell (DateCol xs) i j = (xs ! i = xs ! j)"

definition duplicated :: "dataframe \<Rightarrow> nat \<Rightarrow> bool" where
  "duplicated df i = list_ex (\<lambda>j. list_all (\<lambda>(n, c). same_cell c i j) df) [0..<i]"

definition drop_duplicates :: "dataframe \<Rightarrow> dataframe" where
  "drop_duplicates df = filter_rows (map (\<lambda>i. \<not> duplicated df i) [0..<nrows df]) df"

fun fill_median :: "column \<Rightarrow> column" where
  "fill_median (FloatCol xs) =
     (case median xs of None \<Rightarrow> FloatCol xs | Some md \<Rightarrow> FloatCol (fillna md xs))"
| "fill_median c = c"

fun fill_missing_text :: "column \<Rightarrow> column" where
  "fill_missing_text (ObjCol xs) = ObjCol (fillna (PStr ''missing'') xs)"
| "fill_missing_text c = c"

fun is_object :: "column \<Rightarrow> bool" where
  "is_object (ObjCol _) = True"
| "is_object _ = False"

definition object_columns :: "dataframe \<Rightarrow> string list" where
  "object_columns df = map fst (filter (\<lambda>(n, c). is_object c) df)"

definition fill_numeric_medians :: "dataframe \<Rightarrow> dataframe" where
  "fill_numeric_medians df =
     assign_each (\<lambda>k. fill_median) (filter (\<lambda>k. lower k \<notin> set time_fields) (number_columns df)) df"

definition fill_object_missing :: "dataframe \<Rightarrow> dataframe" where
  "fill_object_missing df = assign_each (\<lambda>k. fill_missing_text) (object_columns df) df"

definition ensure_int_time_fields :: "pandas \<Rightarrow> dataframe \<Rightarrow> dataframe" where
  "ensure_int_time_fields env df =
     assign_each (\<lambda>k. to_numeric_ignore env True) (filter (has_col df) time_fields) df"

text \<open>
  \<^verbatim>\<open>minimal_clean_with_dates\<close>, from the table \<^verbatim>\<open>read_csv\<close> returned to the table
  \<^verbatim>\<open>to_csv\<close> writes: steps 2 to 6 and the final \<^verbatim>\<open>to_numeric\<close> of the time fields.
\<close>

definition minimal_clean_with_dates :: "pandas \<Rightarrow> dataframe \<Rightarrow> py_error + dataframe" where
  "minimal_clean_with_dates env input =
     (case fill_year_qtr_month_from_date env (parse_date_columns env (drop_duplicates input)) of
        Inl e \<Rightarrow> Inl e
      | Inr df \<Rightarrow> Inr (ensure_int_time_fields env (fill_object_missing (fill_numeric_medians df))))"

text \<open>
  \<^verbatim>\<open>read_csv\<close> gives every column a name of its own, and no datetime column (the scripts
  pass no \<^verbatim>\<open>parse_dates\<close>).
\<close>

definition csv_table :: "dataframe \<Rightarrow> bool" where
  "csv_table df = (distinct (columns df) \<and> list_all (\<lambda>(n, c). \<not> is_datetime c) df)"

section \<open>Rows and cells, for stating properties\<close>

datatype cell =
    IntCell int
  | FloatCell "real option"
  | BoolCell bool
  | ObjCell "pyobj option"
  | DateCell "timestamp option"

fun cells :: "column \<Rightarrow> cell list" where
  "cells (IntCol xs) = map IntCell xs"
| "cells (FloatCol xs) = map FloatCell xs"
| "cells (BoolCol xs) = map BoolCell xs"
| "cells (ObjCol xs) = map ObjCell xs"
| "cells (DateCol xs) = map DateCell xs"

text \<open>The share of non-missing cells of row \<open>i\<close>, and the share of missing cells of a column.\<close>

definition completeness :: "dataframe \<Rightarrow> nat \<Rightarrow> real" where
  "completeness g i = real (length (filter (\<lambda>(n, c). \<not> isnull c ! i) g)) / real (length g)"

definition missingness :: "column \<Rightarrow> real" where
  "missingness c = real (length (filter id (isnull c))) / real (col_len c)"

section \<open>Two readings of the outlier filter, for comparison with the code\<close>




section \<open>The date fields, for stating what the date normalizer stores\<close>

text \<open>The field of a date that goes into the column of that name.\<close>

definition field_of :: "string \<Rightarrow> timestamp \<Rightarrow> int" where
  "field_of k d =
     (if k = ''year'' then ts_year d
      else if k = ''month'' then month_num (ts_month d)
      else quarter d)"

text \<open>
  One column under the loop over the rows \<open>idxs\<close>: a missing cell of a row takes the value
  \<open>g\<close> has for that row, when it has one.
\<close>

fun fill_from :: "(nat \<Rightarrow> int option) \<Rightarrow> nat list \<Rightarrow> column \<Rightarrow> column" where
  "fill_from g [] c = c"
| "fill_from g (i # idxs) c =
     fill_from g idxs
       (if isnull c ! i then (case g i of None \<Rightarrow> c | Some v \<Rightarrow> col_set_int i v c) else c)"


text \<open>One pass of the loop body, seen from one column.\<close>

definition row_step :: "dataframe \<Rightarrow> string list \<Rightarrow> nat \<Rightarrow> string \<Rightarrow> column \<Rightarrow> column" where
  "row_step df dts i n c =
     (if n \<in> set time_fields \<and> isnull c ! i
      then (case first_valid_date df i dts of None \<Rightarrow> c | Some d \<Rightarrow> col_set_int i (field_of n d) c)
      else c)"

section \<open>An instance of the library parameters, and example tables\<close>

text \<open>
  The examples below run the model on concrete tables. They use an instance of the library
  parameters that reads runs of decimal digits as integers and \<^verbatim>\<open>YYYY-MM-DD\<close> as a date,
  cleans ASCII text, prints integers in decimal and takes as mode the first of the most
  frequent values; whatever the examples do not use has a fixed answer.
\<close>

definition digit_of :: "char \<Rightarrow> nat option" where
  "digit_of c = map_of (zip ''0123456789'' [0, 1, 2, 3, 4, 5, 6, 7, 8, 9]) c"

fun digits_value :: "string \<Rightarrow> nat \<Rightarrow> nat option" where
  "digits_value [] acc = Some acc"
| "digits_value (c # cs) acc =
     (case digit_of c of None \<Rightarrow> None | Some d \<Rightarrow> digits_value cs (10 * acc + d))"

definition parse_nat :: "string \<Rightarrow> nat option" where
  "parse_nat s = (if s = [] then None else digits_value s 0)"

definition month_of_nat :: "nat \<Rightarrow> month option" where
  "month_of_nat m =
     map_of (zip [1, 2, 3, 4, 5, 6, 7, 8, 9, 10, 11, 12]
                 [Jan, Feb, Mar, Apr, May, Jun, Jul, Aug, Sep, Oct, Nov, Dec]) m"

definition parse_ymd :: "string \<Rightarrow> timestamp option" where
  "parse_ymd s =
     (if length s = 10 \<and> s ! 4 = CHR ''-'' \<and> s ! 7 = CHR ''-''
      then (case (parse_nat (take 4 s), parse_nat (take 2 (drop 5 s)), parse_nat (drop 8 s)) of
              (Some y, Some m, Some d) \<Rightarrow>
                (case month_of_nat m of
                   Some mo \<Rightarrow> Some (Timestamp (int y) mo d 0)
                 | None \<Rightarrow> None)
            | _ \<Rightarrow> None)
      else None)"

definition is_space :: "char \<Rightarrow> bool" where
  "is_space c = (c \<in> set [CHR '' '', CHR 0x09, CHR 0x0A, CHR 0x0D])"

definition is_word :: "char \<Rightarrow> bool" where
  "is_word c = (c \<in> set ''abcdefghijklmnopqrstuvwxyzABCDEFGHIJKLMNOPQRSTUVWXYZ0123456789_'')"

definition clean_text :: "string \<Rightarrow> string" where
  "clean_text s =
     filter (\<lambda>c. is_word c \<or> is_space c)
       (lower (rev (dropWhile is_space (rev (dropWhile is_space s)))))"

fun digit_char :: "nat \<Rightarrow> char" where
  "digit_char n = ''0123456789'' ! (n mod 10)"

fun decimal :: "nat \<Rightarrow> nat \<Rightarrow> string" where
  "decimal 0 n = []"
| "decimal (Suc fuel) n = (if n < 10 then [digit_char n] else decimal fuel (n div 10) @ [digit_char n])"

definition str_of_int :: "int \<Rightarrow> string" where
  "str_of_int i = (if i < 0 then CHR ''-'' # decimal (Suc (nat (- i))) (nat (- i))
                   else decimal (Suc (nat i)) (nat i))"

definition first_mode :: "'a list \<Rightarrow> 'a" where
  "first_mode vs =
     fold (\<lambda>v best. if count_list vs best < count_list vs v then v else best) vs (hd vs)"

definition simple_pandas :: pandas where
  "simple_pandas =
     \<lparr> to_datetime_cell = (\<lambda>v. case v of PStr s \<Rightarrow> parse_ymd s | _ \<Rightarrow> None),
       to_numeric_cell =
         (\<lambda>v. case v of
                 PStr s \<Rightarrow> map_option (\<lambda>n. NInt (int n)) (parse_nat s)
               | PInt i \<Rightarrow> Some (NInt i)
               | PFloat r \<Rightarrow> Some (NFloat r)
               | PBool b \<Rightarrow> Some (NInt (if b then 1 else 0))),
       astype_int_cell =
         (\<lambda>v. case v of
                 PStr s \<Rightarrow> map_option int (parse_nat s)
               | PInt i \<Rightarrow> Some i
               | PFloat r \<Rightarrow> Some (trunc r)
               | PBool b \<Rightarrow> Some (if b then 1 else 0)),
       astype_str =
         (\<lambda>c. case c of
                 IntCol xs \<Rightarrow> map str_of_int xs
               | ObjCol xs \<Rightarrow> map (\<lambda>x. case x of Some (PStr s) \<Rightarrow> s | _ \<Rightarrow> ''nan'') xs
               | _ \<Rightarrow> replicate (col_len c) ''nan''),
       str_clean_cell = (\<lambda>v. case v of PStr s \<Rightarrow> Some (PStr (clean_text s)) | _ \<Rightarrow> None),
       mode_obj = first_mode,
       mode_date = first_mode,
       datetime_int = (\<lambda>d. 0) \<rparr>"

definition ex_leases :: dataframe where
  "ex_leases =
     [(''market'', ObjCol [Some (PStr ''Austin''), Some (PStr ''Boston'')]),
      (''year'', IntCol [2019, 2020]),
      (''quarter'', IntCol [1, 4]),
      (''leasedSF'', FloatCol [Some 1200, None])]"

definition ex_unemployment :: dataframe where
  "ex_unemployment =
     [(''year'', IntCol [2019, 2020]),
      (''state'', ObjCol [Some (PStr ''TX''), Some (PStr ''MA'')]),
      (''unemployment_rate'', FloatCol [Some 3.5, Some 8.1])]"

definition ex_signed :: dataframe where
  "ex_signed = [(''MonthSigned'', ObjCol [Some (PStr ''2020-01-05''), Some (PStr ''n/a'')])]"

definition ex_rates :: dataframe where
  "ex_rates = [(''year'', IntCol [2019, 2020]), (''rate'', FloatCol [Some 3.5, Some 8.1])]"


definition ex_group :: dataframe where
  "ex_group =
     [(''market'', ObjCol [Some (PStr ''Austin''), Some (PStr ''Austin''), Some (PStr ''Austin''), Some (PStr ''Austin'')]),
      (''year'', IntCol [2019, 2019, 2019, 2019]),
      (''rent'', FloatCol [Some 10, Some 20, None, Some 40]),
      (''sqft'', FloatCol [Some 500, None, Some 700, Some 800]),
      (''notes'', ObjCol [Some (PStr ''corner''), None, Some (PStr ''annex''), None]),
      (''floor'', FloatCol [Some 1, None, Some 3, Some 4])]"



definition ex_bad_year :: dataframe where
  "ex_bad_year =
     [(''year'', ObjCol [Some (PStr ''2019''), Some (PStr ''abc'')]),
      (''lease_date'', ObjCol [Some (PStr ''2019-03-01''), Some (PStr ''soon'')]),
      (''rent'', FloatCol [Some 10, None])]"


definition ex_no_dates :: dataframe where
  "ex_no_dates =
     [(''year'', FloatCol [Some 2019, None]),
      (''rate'', FloatCol [Some 3.5, Some 8.1])]"

definition ex_empty_col :: dataframe where
  "ex_empty_col =
     [(''id'', IntCol [1, 2]),
      (''rent'', FloatCol [None, None])]"

definition ex_gaps :: dataframe where
  "ex_gaps =
     [(''id'', IntCol [1, 2, 3, 4]),
      (''rent'', FloatCol [Some 10, None, Some 30, Some 20])]"

section \<open>Auxiliary facts\<close>

lemma columns_map_keep: "columns (map (\<lambda>(n, c). (n, g n c)) df) = columns df"
  by (induction df) (auto simp: columns_def)

lemma set_col_present:
  assumes "distinct (columns df)" "map_of df k = Some c"
  shows "set_col df k (f k c) = map (\<lambda>(n, c). if n = k then (n, f n c) else (n, c)) df"
proof -
  have in_df: "(k, c) \<in> set df" using assms(2) by (rule map_of_SomeD)
  have "k \<in> set (columns df)" using in_df by (force simp: columns_def)
  moreover have "map (\<lambda>(n, c'). if n = k then (n, f k c) else (n, c')) df
      = map (\<lambda>(n, c). if n = k then (n, f n c) else (n, c)) df"
  proof (rule map_cong[OF refl])
    fix x assume x: "x \<in> set df"
    obtain n c' where nc: "x = (n, c')" by (cases x)
    show "(case x of (n, c') \<Rightarrow> if n = k then (n, f k c) else (n, c')) =
          (case x of (n, c) \<Rightarrow> if n = k then (n, f n c) else (n, c))"
    proof (cases "n = k")
      case True
      have "map_of df k = Some c'" using assms(1) x nc True
        by (simp add: columns_def)
      with assms(2) have "c' = c" by simp
      with nc True show ?thesis by simp
    next
      case False
      with nc show ?thesis by simp
    qed
  qed
  ultimately show ?thesis by (simp add: set_col_def has_col_def)
qed

lemma assign_step:
  assumes "distinct (columns df)"
  shows "(case get_col df k of None \<Rightarrow> df | Some c \<Rightarrow> set_col df k (f k c))
       = map (\<lambda>(n, c). if n = k then (n, f n c) else (n, c)) df"
proof (cases "map_of df k")
  case None
  then have "k \<notin> fst ` set df" by (simp add: map_of_eq_None_iff)
  then have "map (\<lambda>(n, c). if n = k then (n, f n c) else (n, c)) df = map (\<lambda>x. x) df"
    by (intro map_cong[OF refl]) force
  with None show ?thesis by (simp add: get_col_def)
next
  case (Some c)
  with set_col_present[OF assms Some, of f] show ?thesis by (simp add: get_col_def)
qed

lemma assign_each_map:
  assumes "distinct (columns df)" "distinct ks"
  shows "assign_each f ks df = map (\<lambda>(n, c). if n \<in> set ks then (n, f n c) else (n, c)) df"
  using assms
proof (induction ks arbitrary: df)
  case Nil
  then show ?case by (simp add: assign_each_def)
next
  case (Cons k ks)
  let ?d = "map (\<lambda>(n, c). if n = k then (n, f n c) else (n, c)) df"
  have cols: "columns ?d = columns df"
    by (induction df) (auto simp: columns_def)
  have step: "assign_each f (k # ks) df = assign_each f ks ?d"
    using assign_step[OF Cons.prems(1), of k f] by (simp add: assign_each_def)
  have "assign_each f ks ?d = map (\<lambda>(n, c). if n \<in> set ks then (n, f n c) else (n, c)) ?d"
    using Cons.IH[of ?d] Cons.prems cols by simp
  also have "\<dots> = map (\<lambda>(n, c). if n \<in> set (k # ks) then (n, f n c) else (n, c)) df"
    using Cons.prems(2) by (auto simp: comp_def split: prod.splits)
  finally show ?case using step by simp
qed

lemma columns_set_col_present:
  assumes "has_col df k"
  shows "columns (set_col df k col) = columns df"
proof -
  have "map fst (map (\<lambda>(n, c). if n = k then (n, col) else (n, c)) df) = map fst df"
    by (induction df) auto
  with assms show ?thesis by (simp add: set_col_def columns_def)
qed

lemma columns_assign_step:
  "columns (case get_col df k of None \<Rightarrow> df | Some c \<Rightarrow> set_col df k (f k c)) = columns df"
proof (cases "get_col df k")
  case None
  then show ?thesis by simp
next
  case (Some c)
  then have "(k, c) \<in> set df" by (simp add: get_col_def map_of_SomeD)
  then have "has_col df k" by (force simp: has_col_def columns_def)
  with Some show ?thesis by (simp add: columns_set_col_present)
qed

lemma columns_assign_each: "columns (assign_each f ks df) = columns df"
proof (induction ks arbitrary: df)
  case Nil
  then show ?case by (simp add: assign_each_def)
next
  case (Cons k ks)
  have "assign_each f (k # ks) df =
        assign_each f ks (case get_col df k of None \<Rightarrow> df | Some c \<Rightarrow> set_col df k (f k c))"
    by (simp add: assign_each_def)
  with Cons.IH columns_assign_step[of df k f] show ?case by simp
qed

lemma contains_iff: "contains sub s \<longleftrightarrow> (\<exists>pre suf. s = pre @ sub @ suf)"
proof (induction s)
  case Nil
  then show ?case by auto
next
  case (Cons c cs)
  show ?case
  proof
    assume "contains sub (c # cs)"
    then consider "prefix sub (c # cs)" | "contains sub cs" by auto
    then show "\<exists>pre suf. c # cs = pre @ sub @ suf"
    proof cases
      case 1
      then obtain suf where "c # cs = sub @ suf" by (auto simp: prefix_def)
      then have "c # cs = [] @ sub @ suf" by simp
      then show ?thesis by blast
    next
      case 2
      with Cons obtain pre suf where "cs = pre @ sub @ suf" by blast
      then have "c # cs = (c # pre) @ sub @ suf" by simp
      then show ?thesis by blast
    qed
  next
    assume "\<exists>pre suf. c # cs = pre @ sub @ suf"
    then obtain pre suf where e: "c # cs = pre @ sub @ suf" by blast
    show "contains sub (c # cs)"
    proof (cases pre)
      case Nil
      with e have "prefix sub (c # cs)" by (simp add: prefix_def)
      then show ?thesis by simp
    next
      case (Cons p ps)
      with e have "cs = ps @ sub @ suf" by simp
      with Cons.IH show ?thesis by auto
    qed
  qed
qed

lemma subseq_filter_self: "subseq (filter P xs) xs"
  by (induction xs) auto

section \<open>The grouping keys\<close>

text \<open>
  Claim C8, as amended. Whenever one of the six candidates
  \<^verbatim>\<open>state, city, market, region, building_classification, year_quarter\<close> is a column of the
  table, \<^verbatim>\<open>get_group_keys\<close> returns exactly the candidates that are columns, in the order
  of the candidate list and each once; the supplied defaults are returned when no candidate
  is a column. \<^verbatim>\<open>main\<close> keys the leases, occupancy and price/availability tables this way,
  on their columns after \<^verbatim>\<open>create_year_quarter\<close> (which appends \<^verbatim>\<open>year_quarter\<close> when
  \<^verbatim>\<open>year\<close> and \<^verbatim>\<open>quarter\<close> are columns), with the defaults \<^verbatim>\<open>market, year_quarter\<close>.
  The unemployment table is not keyed through the candidate list: its keys are
  \<^verbatim>\<open>state, year\<close> when both are columns and \<^verbatim>\<open>year\<close> alone otherwise.
\<close>

theorem group_keys_from_candidates:
  "((\<exists>k\<in>set possible. has_col df k) \<longrightarrow>
      set (get_group_keys df defaults) = {k \<in> set possible. has_col df k}
      \<and> subseq (get_group_keys df defaults) possible
      \<and> distinct (get_group_keys df defaults))
   \<and> ((\<forall>k\<in>set possible. \<not> has_col df k) \<longrightarrow> get_group_keys df defaults = defaults)
   \<and> columns (create_year_quarter env df) =
       (if has_col df ''year'' \<and> has_col df ''quarter'' \<and> \<not> has_col df ''year_quarter''
        then columns df @ [''year_quarter''] else columns df)
   \<and> map_of (main_keys env leases occupancy price_avail unemp) ''leases'' =
       Some (get_group_keys (create_year_quarter env leases) [''market'', ''year_quarter''])
   \<and> map_of (main_keys env leases occupancy price_avail unemp) ''occupancy'' =
       Some (get_group_keys (create_year_quarter env occupancy) [''market'', ''year_quarter''])
   \<and> map_of (main_keys env leases occupancy price_avail unemp) ''price_avail'' =
       Some (get_group_keys (create_year_quarter env price_avail) [''market'', ''year_quarter''])
   \<and> map_of (main_keys env leases occupancy price_avail unemp) ''unemployment'' =
       Some (if has_col unemp ''state'' \<and> has_col unemp ''year''
             then [''state'', ''year''] else [''year''])"
proof -
  let ?keys = "filter (\<lambda>k. k \<in> set (columns df)) possible"
  have some: "(\<exists>k\<in>set possible. has_col df k) \<Longrightarrow> get_group_keys df defaults = ?keys"
  proof -
    assume "\<exists>k\<in>set possible. has_col df k"
    then have "?keys \<noteq> []" by (auto simp: has_col_def filter_empty_conv)
    then show ?thesis by (simp add: get_group_keys_def)
  qed
  have dist: "distinct possible" by (simp add: possible_def)
  have a: "(\<exists>k\<in>set possible. has_col df k) \<longrightarrow>
      set (get_group_keys df defaults) = {k \<in> set possible. has_col df k}
      \<and> subseq (get_group_keys df defaults) possible
      \<and> distinct (get_group_keys df defaults)"
    using some dist by (auto simp: has_col_def subseq_filter_self)
  have b: "(\<forall>k\<in>set possible. \<not> has_col df k) \<longrightarrow> get_group_keys df defaults = defaults"
    by (auto simp: get_group_keys_def has_col_def filter_empty_conv)
  have in_cols: "\<And>k c. get_col df k = Some c \<Longrightarrow> has_col df k"
    by (force simp: get_col_def has_col_def columns_def dest: map_of_SomeD)
  have not_in: "\<And>k. get_col df k = None \<Longrightarrow> \<not> has_col df k"
    by (simp add: get_col_def has_col_def columns_def map_of_eq_None_iff)
  have c: "columns (create_year_quarter env df) =
       (if has_col df ''year'' \<and> has_col df ''quarter'' \<and> \<not> has_col df ''year_quarter''
        then columns df @ [''year_quarter''] else columns df)"
  proof (cases "get_col df ''year''")
    case None
    then show ?thesis using not_in by (simp add: create_year_quarter_def)
  next
    case y: (Some y)
    show ?thesis
    proof (cases "get_col df ''quarter''")
      case None
      then show ?thesis using not_in y by (simp add: create_year_quarter_def)
    next
      case q: (Some q)
      show ?thesis
      proof (cases "has_col df ''year_quarter''")
        case True
        then show ?thesis using y q by (simp add: create_year_quarter_def columns_set_col_present)
      next
        case False
        then show ?thesis using y q in_cols
          by (simp add: create_year_quarter_def set_col_def columns_def)
      qed
    qed
  qed
  have d: "map_of (main_keys env leases occupancy price_avail unemp) ''unemployment'' =
       Some (if has_col unemp ''state'' \<and> has_col unemp ''year''
             then [''state'', ''year''] else [''year''])"
    by (simp add: main_keys_def has_col_def)
  show ?thesis using a b c d by (simp add: main_keys_def)
qed


text \<open>
  The theorem at the leases example (candidates present) and at a table with none of the
  candidates (the defaults are returned).
\<close>

theorem group_keys_witness:
  "(\<exists>k\<in>set possible. has_col ex_leases k)
   \<and> set (get_group_keys ex_leases [''market'', ''year_quarter'']) = {k \<in> set possible. has_col ex_leases k}
   \<and> subseq (get_group_keys ex_leases [''market'', ''year_quarter'']) possible
   \<and> distinct (get_group_keys ex_leases [''market'', ''year_quarter''])
   \<and> \<not> (\<exists>k\<in>set possible. has_col ex_rates k)
   \<and> get_group_keys ex_rates [''market'', ''year_quarter''] = [''market'', ''year_quarter'']"
proof -
  have h1: "\<exists>k\<in>set possible. has_col ex_leases k"
    by (simp add: possible_def has_col_def columns_def ex_leases_def)
  have h2: "\<forall>k\<in>set possible. \<not> has_col ex_rates k"
    by (simp add: possible_def has_col_def columns_def ex_rates_def)
  note t1 = group_keys_from_candidates
    [where df = ex_leases and defaults = "[''market'', ''year_quarter'']" and env = simple_pandas
       and leases = ex_leases and occupancy = ex_leases and price_avail = ex_leases
       and unemp = ex_unemployment]
  note t2 = group_keys_from_candidates
    [where df = ex_rates and defaults = "[''market'', ''year_quarter'']" and env = simple_pandas
       and leases = ex_leases and occupancy = ex_leases and price_avail = ex_leases
       and unemp = ex_unemployment]
  have c1: "set (get_group_keys ex_leases [''market'', ''year_quarter'']) = {k \<in> set possible. has_col ex_leases k}
      \<and> subseq (get_group_keys ex_leases [''market'', ''year_quarter'']) possible
      \<and> distinct (get_group_keys ex_leases [''market'', ''year_quarter''])"
    by (rule mp[OF conjunct1[OF t1] h1])
  have c2: "get_group_keys ex_rates [''market'', ''year_quarter''] = [''market'', ''year_quarter'']"
    by (rule mp[OF conjunct1[OF conjunct2[OF t2]] h2])
  from h1 h2 c1 c2 show ?thesis by blast
qed

text \<open>
  Claim C8 as stated fails for the unemployment table: with the columns
  \<^verbatim>\<open>year, state, unemployment_rate\<close> the only candidate present is \<^verbatim>\<open>state\<close>, and
  \<^verbatim>\<open>main\<close> groups by \<^verbatim>\<open>state, year\<close>, where \<^verbatim>\<open>year\<close> is no candidate.
\<close>

theorem unemployment_keys_counterexample:
  "map_of (main_keys simple_pandas ex_leases ex_leases ex_leases ex_unemployment) ''unemployment''
     = Some [''state'', ''year'']
   \<and> filter (has_col ex_unemployment) possible = [''state'']
   \<and> ''year'' \<notin> set possible"
  by (simp add: main_keys_def possible_def has_col_def columns_def ex_unemployment_def)

section \<open>Which columns are parsed as dates\<close>

lemma date_like_iff:
  "date_like n \<longleftrightarrow>
     (\<exists>pre suf. lower n = pre @ ''date'' @ suf) \<or> (\<exists>pre suf. lower n = pre @ ''signed'' @ suf)"
  by (simp add: date_like_def contains_iff)

text \<open>
  Claim C5, as amended. In \<^verbatim>\<open>CleaningDeep.py\<close>, \<^verbatim>\<open>parse_date_columns\<close> parses a column
  as dates exactly when its lowered name contains \<^verbatim>\<open>date\<close> or \<^verbatim>\<open>signed\<close> as a
  substring, and leaves every other column as it is. In \<^verbatim>\<open>Cleaning.py\<close>,
  \<^verbatim>\<open>standardize_dtypes\<close> parses a column as dates exactly when its lowered name contains
  \<^verbatim>\<open>date\<close>; a name that only contains \<^verbatim>\<open>signed\<close> is treated as text or as a number.
\<close>

theorem date_like_classification:
  assumes "distinct (columns df)"
  shows "parse_date_columns env df =
           map (\<lambda>(n, c). if (\<exists>pre suf. lower n = pre @ ''date'' @ suf)
                              \<or> (\<exists>pre suf. lower n = pre @ ''signed'' @ suf)
                           then (n, to_datetime env c) else (n, c)) df
       \<and> standardize_dtypes env df =
           map (\<lambda>(n, c). if (\<exists>pre suf. lower n = pre @ ''date'' @ suf)
                           then (n, to_datetime env c)
                           else (n, case c of
                                      ObjCol xs \<Rightarrow> ObjCol (map (\<lambda>x. Option.bind x (str_clean_cell env)) xs)
                                    | _ \<Rightarrow> to_numeric_ignore env False c)) df"
proof
  have d: "distinct (filter date_like (columns df))" using assms by simp
  have "parse_date_columns env df =
        map (\<lambda>(n, c). if n \<in> set (filter date_like (columns df)) then (n, to_datetime env c) else (n, c)) df"
    unfolding parse_date_columns_def by (rule assign_each_map[OF assms d])
  also have "\<dots> = map (\<lambda>(n, c). if (\<exists>pre suf. lower n = pre @ ''date'' @ suf)
                              \<or> (\<exists>pre suf. lower n = pre @ ''signed'' @ suf)
                           then (n, to_datetime env c) else (n, c)) df"
  proof (rule map_cong[OF refl])
    fix x assume x: "x \<in> set df"
    obtain n c where nc: "x = (n, c)" by (cases x)
    with x have "n \<in> set (columns df)" by (force simp: columns_def)
    then have "n \<in> set (filter date_like (columns df)) \<longleftrightarrow>
               (\<exists>pre suf. lower n = pre @ ''date'' @ suf) \<or> (\<exists>pre suf. lower n = pre @ ''signed'' @ suf)"
      by (simp add: date_like_iff)
    with nc show "(case x of (n, c) \<Rightarrow>
            if n \<in> set (filter date_like (columns df)) then (n, to_datetime env c) else (n, c)) =
          (case x of (n, c) \<Rightarrow>
            if (\<exists>pre suf. lower n = pre @ ''date'' @ suf) \<or> (\<exists>pre suf. lower n = pre @ ''signed'' @ suf)
            then (n, to_datetime env c) else (n, c))"
      by simp
  qed
  finally show "parse_date_columns env df =
           map (\<lambda>(n, c). if (\<exists>pre suf. lower n = pre @ ''date'' @ suf)
                              \<or> (\<exists>pre suf. lower n = pre @ ''signed'' @ suf)
                           then (n, to_datetime env c) else (n, c)) df" .
next
  have "standardize_dtypes env df =
        map (\<lambda>(n, c). if n \<in> set (columns df) then (n, standardize_col env n c) else (n, c)) df"
    unfolding standardize_dtypes_def by (rule assign_each_map[OF assms assms])
  also have "\<dots> = map (\<lambda>(n, c). if (\<exists>pre suf. lower n = pre @ ''date'' @ suf)
                           then (n, to_datetime env c)
                           else (n, case c of
                                      ObjCol xs \<Rightarrow> ObjCol (map (\<lambda>x. Option.bind x (str_clean_cell env)) xs)
                                    | _ \<Rightarrow> to_numeric_ignore env False c)) df"
  proof (rule map_cong[OF refl])
    fix x assume x: "x \<in> set df"
    obtain n c where nc: "x = (n, c)" by (cases x)
    with x have "n \<in> set (columns df)" by (force simp: columns_def)
    with nc show "(case x of (n, c) \<Rightarrow>
            if n \<in> set (columns df) then (n, standardize_col env n c) else (n, c)) =
          (case x of (n, c) \<Rightarrow>
            if (\<exists>pre suf. lower n = pre @ ''date'' @ suf) then (n, to_datetime env c)
            else (n, case c of
                       ObjCol xs \<Rightarrow> ObjCol (map (\<lambda>x. Option.bind x (str_clean_cell env)) xs)
                     | _ \<Rightarrow> to_numeric_ignore env False c))"
      by (simp add: standardize_col_def contains_iff)
  qed
  finally show "standardize_dtypes env df =
           map (\<lambda>(n, c). if (\<exists>pre suf. lower n = pre @ ''date'' @ suf)
                           then (n, to_datetime env c)
                           else (n, case c of
                                      ObjCol xs \<Rightarrow> ObjCol (map (\<lambda>x. Option.bind x (str_clean_cell env)) xs)
                                    | _ \<Rightarrow> to_numeric_ignore env False c)) df" .
qed


text \<open>The theorem at a table with the one column \<^verbatim>\<open>MonthSigned\<close>.\<close>

theorem date_like_witness:
  "distinct (columns ex_signed)
   \<and> parse_date_columns simple_pandas ex_signed =
       [(''MonthSigned'', DateCol [Some (Timestamp 2020 Jan 5 0), None])]
   \<and> standardize_dtypes simple_pandas ex_signed =
       [(''MonthSigned'', ObjCol [Some (PStr ''20200105''), Some (PStr ''na'')])]"
proof -
  have h: "distinct (columns ex_signed)" by (simp add: ex_signed_def columns_def)
  note t = date_like_classification[OF h, of simple_pandas]
  have s: "\<exists>pre suf. lower ''MonthSigned'' = pre @ ''signed'' @ suf"
    using contains_iff[of "''signed''" "lower ''MonthSigned''"] by (simp add: lower_def lower_char_def)
  have d: "\<not> (\<exists>pre suf. lower ''MonthSigned'' = pre @ ''date'' @ suf)"
    using contains_iff[of "''date''" "lower ''MonthSigned''"] by (simp add: lower_def lower_char_def)
  have p: "to_datetime simple_pandas (ObjCol [Some (PStr ''2020-01-05''), Some (PStr ''n/a'')])
           = DateCol [Some (Timestamp 2020 Jan 5 0), None]"
    by code_simp
  have c: "ObjCol (map (\<lambda>x. Option.bind x (str_clean_cell simple_pandas))
                   [Some (PStr ''2020-01-05''), Some (PStr ''n/a'')])
           = ObjCol [Some (PStr ''20200105''), Some (PStr ''na'')]"
    by code_simp
  have "parse_date_columns simple_pandas ex_signed =
       [(''MonthSigned'', DateCol [Some (Timestamp 2020 Jan 5 0), None])]"
    using conjunct1[OF t] s p by (simp add: ex_signed_def)
  moreover have "standardize_dtypes simple_pandas ex_signed =
       [(''MonthSigned'', ObjCol [Some (PStr ''20200105''), Some (PStr ''na'')])]"
    using conjunct2[OF t] d c by (simp add: ex_signed_def)
  ultimately show ?thesis using h by simp
qed

text \<open>
  Claim C5 as stated fails in \<^verbatim>\<open>Cleaning.py\<close>: the name \<^verbatim>\<open>MonthSigned\<close> contains
  \<^verbatim>\<open>signed\<close>, and \<^verbatim>\<open>standardize_dtypes\<close> cleans the column as text instead of parsing
  it as dates.
\<close>

theorem signed_not_parsed_counterexample:
  "contains ''signed'' (lower ''MonthSigned'')
   \<and> standardize_dtypes simple_pandas ex_signed =
       [(''MonthSigned'', ObjCol [Some (PStr ''20200105''), Some (PStr ''na'')])]"
  by code_simp


section \<open>The normalizer\<close>








lemma lookup_distinct:
  "distinct (columns df) \<Longrightarrow> (n, c) \<in> set df \<Longrightarrow> get_col df n = Some c"
  by (simp add: columns_def get_col_def)

lemma number_columns_mem:
  assumes "distinct (columns df)" "(n, c) \<in> set df"
  shows "n \<in> set (number_columns df) \<longleftrightarrow> is_number c"
proof
  assume "n \<in> set (number_columns df)"
  then obtain c' where c': "(n, c') \<in> set df" "is_number c'"
    by (auto simp: number_columns_def)
  have "get_col df n = Some c'" using assms(1) c'(1) by (rule lookup_distinct)
  moreover have "get_col df n = Some c" using assms by (rule lookup_distinct)
  ultimately show "is_number c" using c'(2) by simp
next
  assume "is_number c"
  with assms(2) show "n \<in> set (number_columns df)"
    by (force simp: number_columns_def)
qed


lemma get_col_map:
  assumes "distinct (columns df)" "(n, c) \<in> set df"
  shows "get_col (map (\<lambda>(n, c). (n, f n c)) df) n = Some (f n c)"
proof -
  have "distinct (columns (map (\<lambda>(n, c). (n, f n c)) df))"
    using assms(1) by (simp add: columns_map_keep)
  moreover have "(n, f n c) \<in> set (map (\<lambda>(n, c). (n, f n c)) df)"
    using assms(2) by force
  ultimately show ?thesis by (rule lookup_distinct)
qed













section \<open>The group cleaner\<close>

lemma well_formed_len:
  "well_formed g \<Longrightarrow> (n, c) \<in> set g \<Longrightarrow> col_len c = nrows g"
  by (auto simp: well_formed_def list_all_iff)

lemma length_isnull: "length (isnull c) = col_len c"
  by (cases c) simp_all


lemma nrows_pos_nonempty: "0 < nrows g \<Longrightarrow> g \<noteq> []"
  by (auto simp: nrows_def)

lemma row_completeness_eq:
  assumes "g \<noteq> []"
  shows "row_completeness g = map (\<lambda>i. Some (completeness g i)) [0..<nrows g]"
proof -
  have "mean_bool (map (\<lambda>(n, c). \<not> isnull c ! i) g) = Some (completeness g i)" for i
  proof -
    have "filter id (map (\<lambda>(n, c). \<not> isnull c ! i) g) =
          map (\<lambda>(n, c). \<not> isnull c ! i) (filter (\<lambda>(n, c). \<not> isnull c ! i) g)"
      by (simp add: filter_map comp_def)
    then have "length (filter id (map (\<lambda>(n, c). \<not> isnull c ! i) g)) =
               length (filter (\<lambda>(n, c). \<not> isnull c ! i) g)"
      by simp
    with assms show ?thesis by (simp add: mean_bool_def completeness_def)
  qed
  then show ?thesis by (simp add: row_completeness_def)
qed

lemma col_missingness_eq:
  assumes "well_formed g" "0 < nrows g"
  shows "col_missingness g = map (\<lambda>(n, c). (n, Some (missingness c))) g"
proof -
  have "(case x of (n, c) \<Rightarrow> (n, mean_bool (isnull c))) =
        (case x of (n, c) \<Rightarrow> (n, Some (missingness c)))" if "x \<in> set g" for x
  proof -
    obtain n c where nc: "x = (n, c)" by (cases x)
    with that assms have "col_len c = nrows g" by (simp add: well_formed_len)
    with assms(2) have "isnull c \<noteq> []" using length_isnull[of c] by auto
    with nc show ?thesis by (simp add: mean_bool_def missingness_def length_isnull)
  qed
  then show ?thesis unfolding col_missingness_def by (intro map_cong[OF refl])
qed

lemma sort_Nil_iff: "sort xs = [] \<longleftrightarrow> xs = []"
  by (metis length_sort length_0_conv)

lemma median_Some:
  assumes "present xs \<noteq> []"
  shows "\<exists>m. median xs = Some m"
proof -
  let ?s = "sort (present xs)"
  have n: "length ?s \<noteq> 0" using assms by (simp add: sort_Nil_iff)
  show ?thesis
  proof (cases "odd (length ?s)")
    case True
    have "median xs = Some (?s ! (length ?s div 2))"
      using n True by (simp add: median_def Let_def sort_Nil_iff)
    then show ?thesis by blast
  next
    case False
    have "median xs = Some ((?s ! (length ?s div 2 - 1) + ?s ! (length ?s div 2)) / 2)"
      using n False by (simp add: median_def Let_def sort_Nil_iff)
    then show ?thesis by blast
  qed
qed

lemma py_max_Some: "py_max a (Some x) = max a x"
  by (simp add: py_max_def max_def)

lemma py_min_Some: "py_min a (Some x) = min a x"
  by (simp add: py_min_def min_def)

lemma iloc0_ok:
  assumes "0 < col_len c"
  shows "\<exists>y. iloc0_is_2018 c = Inr y"
proof (cases c)
  case (IntCol xs) with assms show ?thesis by (cases xs) auto
next
  case (FloatCol xs) with assms show ?thesis by (cases xs) auto
next
  case (BoolCol xs) with assms show ?thesis by (cases xs) auto
next
  case (ObjCol xs) with assms show ?thesis by (cases xs) auto
next
  case (DateCol xs) with assms show ?thesis by (cases xs) auto
qed

lemma year_is_2018_ok:
  assumes "well_formed g" "0 < nrows g"
  shows "\<exists>y. year_is_2018 g = Inr y"
proof (cases "get_col g ''year''")
  case None
  then show ?thesis by (auto simp: year_is_2018_def)
next
  case (Some c)
  then have "(''year'', c) \<in> set g" by (simp add: get_col_def map_of_SomeD)
  with assms have "0 < col_len c" by (simp add: well_formed_len)
  from iloc0_ok[OF this] Some show ?thesis by (simp add: year_is_2018_def)
qed





lemma distinct_same_col:
  assumes "distinct (columns df)" "(n, c) \<in> set df" "(n, c') \<in> set df"
  shows "c = c'"
proof -
  have "get_col df n = Some c" using assms(1,2) by (rule lookup_distinct)
  moreover have "get_col df n = Some c'" using assms(1,3) by (rule lookup_distinct)
  ultimately show ?thesis by simp
qed

lemma drop_sparse_shape:
  assumes wf: "well_formed g" and rows: "0 < nrows g" and th: "thresholds g = Inr (rt, ct)"
  shows "drop_sparse g =
         Inr (map (\<lambda>(n, c). (n, col_select (map (\<lambda>i. rt \<le> completeness g i) [0..<nrows g]) c))
                  (filter (\<lambda>(n, c). missingness c < ct) g))"
proof -
  have ne: "g \<noteq> []" using rows by (rule nrows_pos_nonempty)
  have dist: "distinct (columns g)" using wf by (simp add: well_formed_def)
  let ?keep = "map (ge_thresh rt) (row_completeness g)"
  let ?drop = "map fst (filter (\<lambda>(n, x). ge_thresh ct x) (col_missingness g))"
  have keep: "?keep = map (\<lambda>i. rt \<le> completeness g i) [0..<nrows g]"
    by (simp add: row_completeness_eq[OF ne] ge_thresh_def comp_def)
  have "filter (\<lambda>(n, x). ge_thresh ct x) (col_missingness g) =
        map (\<lambda>(n, c). (n, Some (missingness c))) (filter (\<lambda>(n, c). ct \<le> missingness c) g)"
    by (simp add: col_missingness_eq[OF wf rows] filter_map comp_def case_prod_unfold ge_thresh_def)
  then have drop: "?drop = map fst (filter (\<lambda>(n, c). ct \<le> missingness c) g)"
    by (simp add: comp_def case_prod_unfold)
  have mem: "n \<notin> set ?drop \<longleftrightarrow> missingness c < ct" if "(n, c) \<in> set g" for n c
  proof
    assume "n \<notin> set ?drop"
    with that show "missingness c < ct" unfolding drop by force
  next
    assume lt: "missingness c < ct"
    show "n \<notin> set ?drop"
    proof
      assume "n \<in> set ?drop"
      then obtain c' where c': "(n, c') \<in> set g" "ct \<le> missingness c'" unfolding drop by auto
      have "c' = c" using dist c'(1) that by (rule distinct_same_col)
      with c'(2) lt show False by simp
    qed
  qed
  have "filter (\<lambda>(n, c). n \<notin> set ?drop) (filter_rows ?keep g) =
        map (\<lambda>(n, c). (n, col_select ?keep c)) (filter (\<lambda>(n, c). n \<notin> set ?drop) g)"
    by (simp add: filter_rows_def filter_map comp_def case_prod_unfold)
  also have "filter (\<lambda>(n, c). n \<notin> set ?drop) g = filter (\<lambda>(n, c). missingness c < ct) g"
    using mem by (intro filter_cong[OF refl]) auto
  finally have "filter (\<lambda>(n, c). n \<notin> set ?drop) (filter_rows ?keep g) =
        map (\<lambda>(n, c). (n, col_select (map (\<lambda>i. rt \<le> completeness g i) [0..<nrows g]) c))
            (filter (\<lambda>(n, c). missingness c < ct) g)"
    unfolding keep .
  then show ?thesis using th by (simp add: drop_sparse_def Let_def)
qed

lemma thresholds_value:
  assumes wf: "well_formed g" and rows: "0 < nrows g" and y: "year_is_2018 g = Inr y"
  shows "\<exists>mr mc. median (map (\<lambda>i. Some (completeness g i)) [0..<nrows g]) = Some mr
           \<and> median (map (\<lambda>(n, c). Some (missingness c)) g) = Some mc
           \<and> thresholds g = Inr (if y then (0.4, 0.6) else (max 0.2 (mr - 0.1), min 0.9 (mc + 0.1)))"
proof -
  have ne: "g \<noteq> []" using rows by (rule nrows_pos_nonempty)
  let ?r = "map (\<lambda>i. Some (completeness g i)) [0..<nrows g]"
  let ?m = "map (\<lambda>(n, c). Some (missingness c)) g"
  have pr: "present ?r \<noteq> []" using rows by (simp add: present_def filter_empty_conv)
  have pm: "present ?m \<noteq> []" using ne by (cases g) (auto simp: present_def)
  from median_Some[OF pr] obtain mr where mr: "median ?r = Some mr" by blast
  from median_Some[OF pm] obtain mc where mc: "median ?m = Some mc" by blast
  have snd_m: "map snd (col_missingness g) = ?m"
    by (simp add: col_missingness_eq[OF wf rows] comp_def case_prod_unfold)
  have "thresholds g = Inr (if y then (0.4, 0.6) else (max 0.2 (mr - 0.1), min 0.9 (mc + 0.1)))"
    using y mr mc
    by (simp add: thresholds_def Let_def row_completeness_eq[OF ne] snd_m py_max_Some py_min_Some)
  with mr mc show ?thesis by blast
qed






section \<open>The outlier filter\<close>



lemma col_len_select: "col_len (col_select bs c) = length (select bs (cells c))"
  by (cases c) (simp_all add: select_def zip_map2 filter_map comp_def case_prod_unfold)












section \<open>Cells that do not convert\<close>

lemma get_col_assign_each:
  assumes "distinct (columns df)" "distinct ks" "get_col df k = Some c"
  shows "get_col (assign_each f ks df) k = Some (if k \<in> set ks then f k c else c)"
proof -
  have mem: "(k, c) \<in> set df" using assms(3) by (simp add: get_col_def map_of_SomeD)
  have "get_col (map (\<lambda>(n, c). (n, if n \<in> set ks then f n c else c)) df) k
        = Some (if k \<in> set ks then f k c else c)"
    by (rule get_col_map[OF assms(1) mem])
  moreover have "map (\<lambda>(n, c). (n, if n \<in> set ks then f n c else c)) df
        = map (\<lambda>(n, c). if n \<in> set ks then (n, f n c) else (n, c)) df"
    by (intro map_cong[OF refl]) auto
  ultimately show ?thesis using assign_each_map[OF assms(1,2), of f] by simp
qed

lemma get_col_has_col: "get_col df k = Some c \<Longrightarrow> has_col df k"
  by (force simp: get_col_def has_col_def columns_def dest: map_of_SomeD)

lemma distinct_time_fields: "distinct (filter P time_fields)"
  by (simp add: time_fields_def)

lemma to_numeric_ignore_fails:
  assumes "Some v \<in> set xs" "to_numeric_cell env v = None"
  shows "to_numeric_ignore env dc (ObjCol xs) = ObjCol xs"
proof -
  have "Some None \<in> set (map (\<lambda>x. map_option (to_numeric_cell env) x) xs)"
    using assms by force
  then have "convert_obj env xs = None"
    by (simp add: convert_obj_def Let_def list_ex_iff)
  then show ?thesis by (simp add: to_numeric_ignore_def)
qed

lemma to_numeric_ignore_numeric:
  "to_numeric_ignore env False (IntCol xs) = IntCol xs"
  "to_numeric_ignore env False (FloatCol ys) = FloatCol ys"
  "to_numeric_ignore env False (BoolCol bs) = BoolCol bs"
  by (simp_all add: to_numeric_ignore_def)

text \<open>
  Claim C4, as amended. Numeric coercion uses \<^verbatim>\<open>errors='ignore'\<close> in both scripts, so a value
  that fails it is left as it is, with its whole column, and no error is raised: in the last
  step of \<^verbatim>\<open>minimal_clean_with_dates\<close> an object column \<^verbatim>\<open>year\<close>, \<^verbatim>\<open>quarter\<close> or
  \<^verbatim>\<open>month\<close> with a cell that does not convert is returned unchanged, and
  \<^verbatim>\<open>standardize_dtypes\<close> leaves every integer, float or boolean column (whose name does not
  contain \<^verbatim>\<open>date\<close>) unchanged. A value that fails date parsing in a date-like column becomes
  missing, in \<^verbatim>\<open>parse_date_columns\<close> and in \<^verbatim>\<open>standardize_dtypes\<close> alike.
\<close>

theorem failed_coercions:
  assumes "distinct (columns df)"
  shows "(\<forall>k xs v. k \<in> set time_fields \<and> get_col df k = Some (ObjCol xs)
             \<and> Some v \<in> set xs \<and> to_numeric_cell env v = None \<longrightarrow>
           get_col (ensure_int_time_fields env df) k = Some (ObjCol xs))
       \<and> (\<forall>k c. get_col df k = Some c \<and> \<not> contains ''date'' (lower k)
             \<and> (is_number c \<or> (\<exists>bs. c = BoolCol bs)) \<longrightarrow>
           get_col (standardize_dtypes env df) k = Some c)
       \<and> (\<forall>k xs i v. date_like k \<and> get_col df k = Some (ObjCol xs)
             \<and> i < length xs \<and> xs ! i = Some v \<and> to_datetime_cell env v = None \<longrightarrow>
           (\<exists>ys. get_col (parse_date_columns env df) k = Some (DateCol ys)
                \<and> length ys = length xs \<and> ys ! i = None))
       \<and> (\<forall>k xs i v. contains ''date'' (lower k) \<and> get_col df k = Some (ObjCol xs)
             \<and> i < length xs \<and> xs ! i = Some v \<and> to_datetime_cell env v = None \<longrightarrow>
           (\<exists>ys. get_col (standardize_dtypes env df) k = Some (DateCol ys)
                \<and> length ys = length xs \<and> ys ! i = None))"
proof (intro conjI allI impI)
  fix k xs v
  assume a: "k \<in> set time_fields \<and> get_col df k = Some (ObjCol xs)
             \<and> Some v \<in> set xs \<and> to_numeric_cell env v = None"
  then have "has_col df k" by (simp add: get_col_has_col)
  with a have "k \<in> set (filter (has_col df) time_fields)" by simp
  then have "get_col (ensure_int_time_fields env df) k = Some (to_numeric_ignore env True (ObjCol xs))"
    unfolding ensure_int_time_fields_def
    using get_col_assign_each[where ks = "filter (has_col df) time_fields" and k = k
            and c = "ObjCol xs" and f = "\<lambda>k. to_numeric_ignore env True",
            OF assms distinct_time_fields] a
    by simp
  moreover have "to_numeric_ignore env True (ObjCol xs) = ObjCol xs"
    using a to_numeric_ignore_fails[of v xs env True] by blast
  ultimately show "get_col (ensure_int_time_fields env df) k = Some (ObjCol xs)"
    by simp
next
  fix k c
  assume a: "get_col df k = Some c \<and> \<not> contains ''date'' (lower k)
             \<and> (is_number c \<or> (\<exists>bs. c = BoolCol bs))"
  then have "has_col df k" by (simp add: get_col_has_col)
  then have "k \<in> set (columns df)" by (simp add: has_col_def)
  then have g: "get_col (standardize_dtypes env df) k = Some (standardize_col env k c)"
    unfolding standardize_dtypes_def
    using get_col_assign_each[where ks = "columns df" and k = k and c = c
            and f = "standardize_col env", OF assms assms] a by simp
  have "standardize_col env k c = c"
    using a by (cases c) (auto simp: standardize_col_def to_numeric_ignore_numeric is_number_def)
  with g show "get_col (standardize_dtypes env df) k = Some c" by simp
next
  fix k xs i v
  assume a: "date_like k \<and> get_col df k = Some (ObjCol xs)
             \<and> i < length xs \<and> xs ! i = Some v \<and> to_datetime_cell env v = None"
  then have "has_col df k" by (simp add: get_col_has_col)
  with a have "k \<in> set (filter date_like (columns df))" by (simp add: has_col_def)
  moreover have "distinct (filter date_like (columns df))" using assms by simp
  ultimately have "get_col (parse_date_columns env df) k = Some (to_datetime env (ObjCol xs))"
    unfolding parse_date_columns_def
    using get_col_assign_each[where ks = "filter date_like (columns df)" and k = k
            and c = "ObjCol xs" and f = "\<lambda>k. to_datetime env", OF assms] a
    by simp
  then show "\<exists>ys. get_col (parse_date_columns env df) k = Some (DateCol ys)
                \<and> length ys = length xs \<and> ys ! i = None"
    using a by simp
next
  fix k xs i v
  assume a: "contains ''date'' (lower k) \<and> get_col df k = Some (ObjCol xs)
             \<and> i < length xs \<and> xs ! i = Some v \<and> to_datetime_cell env v = None"
  then have "has_col df k" by (simp add: get_col_has_col)
  then have "k \<in> set (columns df)" by (simp add: has_col_def)
  then have "get_col (standardize_dtypes env df) k = Some (standardize_col env k (ObjCol xs))"
    unfolding standardize_dtypes_def
    using get_col_assign_each[where ks = "columns df" and k = k and c = "ObjCol xs"
            and f = "standardize_col env", OF assms assms] a by simp
  then show "\<exists>ys. get_col (standardize_dtypes env df) k = Some (DateCol ys)
                \<and> length ys = length xs \<and> ys ! i = None"
    using a by (simp add: standardize_col_def)
qed


text \<open>
  The theorem at a table whose \<^verbatim>\<open>year\<close> column holds the text \<^verbatim>\<open>abc\<close> and whose
  \<^verbatim>\<open>lease_date\<close> column holds the text \<^verbatim>\<open>soon\<close>.
\<close>

theorem failed_coercions_witness:
  "distinct (columns ex_bad_year)
   \<and> to_numeric_cell simple_pandas (PStr ''abc'') = None
   \<and> get_col (ensure_int_time_fields simple_pandas ex_bad_year) ''year''
       = Some (ObjCol [Some (PStr ''2019''), Some (PStr ''abc'')])
   \<and> get_col (standardize_dtypes simple_pandas ex_bad_year) ''rent'' = Some (FloatCol [Some 10, None])
   \<and> to_datetime_cell simple_pandas (PStr ''soon'') = None
   \<and> (\<exists>ys. get_col (parse_date_columns simple_pandas ex_bad_year) ''lease_date'' = Some (DateCol ys)
           \<and> length ys = 2 \<and> ys ! 1 = None)
   \<and> (\<exists>ys. get_col (standardize_dtypes simple_pandas ex_bad_year) ''lease_date'' = Some (DateCol ys)
           \<and> length ys = 2 \<and> ys ! 1 = None)"
proof -
  let ?years = "[Some (PStr ''2019''), Some (PStr ''abc'')]"
  let ?dates = "[Some (PStr ''2019-03-01''), Some (PStr ''soon'')]"
  have h: "distinct (columns ex_bad_year)" by (simp add: ex_bad_year_def columns_def)
  note t = failed_coercions[OF h, of simple_pandas]
  have n: "to_numeric_cell simple_pandas (PStr ''abc'') = None" by code_simp
  have d: "to_datetime_cell simple_pandas (PStr ''soon'') = None" by code_simp
  have gy: "get_col ex_bad_year ''year'' = Some (ObjCol ?years)" by (simp add: ex_bad_year_def get_col_def)
  have gr: "get_col ex_bad_year ''rent'' = Some (FloatCol [Some 10, None])"
    by (simp add: ex_bad_year_def get_col_def)
  have gd: "get_col ex_bad_year ''lease_date'' = Some (ObjCol ?dates)"
    by (simp add: ex_bad_year_def get_col_def)
  have nd: "\<not> contains ''date'' (lower ''rent'')" by (simp add: lower_def lower_char_def)
  have cd: "contains ''date'' (lower ''lease_date'')" by (simp add: lower_def lower_char_def)
  have dl: "date_like ''lease_date''" using cd by (simp add: date_like_def)
  have a: "get_col (ensure_int_time_fields simple_pandas ex_bad_year) ''year'' = Some (ObjCol ?years)"
    using conjunct1[OF t, rule_format, of "''year''" ?years "PStr ''abc''"] gy n
    by (simp add: time_fields_def)
  have b: "get_col (standardize_dtypes simple_pandas ex_bad_year) ''rent'' = Some (FloatCol [Some 10, None])"
    using conjunct1[OF conjunct2[OF t], rule_format, of "''rent''" "FloatCol [Some 10, None]"] gr nd
    by (simp add: is_number_def)
  have c: "\<exists>ys. get_col (parse_date_columns simple_pandas ex_bad_year) ''lease_date'' = Some (DateCol ys)
           \<and> length ys = 2 \<and> ys ! 1 = None"
    using conjunct1[OF conjunct2[OF conjunct2[OF t]], rule_format, of "''lease_date''" ?dates 1 "PStr ''soon''"]
      gd dl d by (simp add: numeral_2_eq_2)
  have e: "\<exists>ys. get_col (standardize_dtypes simple_pandas ex_bad_year) ''lease_date'' = Some (DateCol ys)
           \<and> length ys = 2 \<and> ys ! 1 = None"
    using conjunct2[OF conjunct2[OF conjunct2[OF t]], rule_format, of "''lease_date''" ?dates 1 "PStr ''soon''"]
      gd cd d by (simp add: numeral_2_eq_2)
  from h n a b d c e show ?thesis by blast
qed

text \<open>
  Claim C4 as stated fails for numeric coercion: the text \<^verbatim>\<open>abc\<close> in the \<^verbatim>\<open>year\<close> column
  does not convert to a number, and the minimal pipeline writes it out as it was, not as a
  missing value (the text \<^verbatim>\<open>soon\<close> in the date column does become missing).
\<close>

theorem failed_numeric_kept_counterexample:
  "to_numeric_cell simple_pandas (PStr ''abc'') = None
   \<and> minimal_clean_with_dates simple_pandas ex_bad_year =
       Inr [(''year'', ObjCol [Some (PStr ''2019''), Some (PStr ''abc'')]),
            (''lease_date'', DateCol [Some (Timestamp 2019 Mar 1 0), None]),
            (''rent'', FloatCol [Some 10, Some 10])]"
  by code_simp


section \<open>The minimal pipeline keeps the columns\<close>

lemma columns_filter_rows: "columns (filter_rows bs df) = columns df"
  unfolding filter_rows_def by (rule columns_map_keep)

lemma columns_drop_duplicates: "columns (drop_duplicates df) = columns df"
  by (simp add: drop_duplicates_def columns_filter_rows)

lemma columns_set_at: "columns (set_at df idx k v) = columns df"
  unfolding set_at_def by (rule columns_assign_step)

lemma has_col_set_at: "has_col (set_at df idx k v) k' = has_col df k'"
  by (simp add: has_col_def columns_set_at)

lemma fill_row_unfold:
  "fill_row dts idx df =
     (if row_has df idx ''year'' \<and> row_has df idx ''quarter'' \<and> row_has df idx ''month'' then df
      else case first_valid_date df idx dts of
             None \<Rightarrow> df
           | Some d \<Rightarrow>
               (let df1 = (if has_col df ''year'' \<and> \<not> row_has df idx ''year''
                           then set_at df idx ''year'' (ts_year d) else df);
                    df2 = (if has_col df ''month'' \<and> \<not> row_has df idx ''month''
                           then set_at df1 idx ''month'' (month_num (ts_month d)) else df1)
                in if has_col df ''quarter'' \<and> \<not> row_has df idx ''quarter''
                   then set_at df2 idx ''quarter'' (quarter d) else df2))"
proof -
  have h: "has_col (if b then set_at d1 i k v else d1) k' = has_col d1 k'" for b d1 i k v k'
    by (simp add: has_col_set_at)
  show ?thesis
    unfolding fill_row_def Let_def h by (rule refl)
qed

lemma columns_fill_row: "columns (fill_row dts idx df) = columns df"
proof (cases "first_valid_date df idx dts")
  case None
  then show ?thesis unfolding fill_row_unfold by simp
next
  case (Some d)
  show ?thesis unfolding fill_row_unfold Some option.case Let_def by (simp add: columns_set_at)
qed

lemma columns_fill_rows: "columns (fold (fill_row dts) idxs df) = columns df"
proof (induction idxs arbitrary: df)
  case Nil
  show ?case by simp
next
  case (Cons i idxs)
  have "columns (fold (fill_row dts) idxs (fill_row dts i df)) = columns (fill_row dts i df)"
    by (rule Cons.IH)
  then show ?case by (simp add: columns_fill_row)
qed

lemma columns_fill_year:
  assumes "fill_year_qtr_month_from_date env df = Inr out"
  shows "columns out = columns df"
proof (cases "dt_cols df = []")
  case True
  with assms show ?thesis by (simp add: fill_year_qtr_month_from_date_def)
next
  case False
  show ?thesis
  proof (cases "list_ex (\<lambda>k. k \<in> set (dt_cols df)) time_fields")
    case True
    with False assms show ?thesis by (simp add: fill_year_qtr_month_from_date_def)
  next
    case no: False
    from assms False no
    have "out = zero_fill_time_fields env (fold (fill_row (dt_cols df)) [0..<nrows df] df)"
      by (simp add: fill_year_qtr_month_from_date_def)
    then show ?thesis
      by (simp add: zero_fill_time_fields_def columns_assign_each columns_fill_rows)
  qed
qed

lemma is_datetime_select: "is_datetime (col_select bs c) = is_datetime c"
  by (cases c) simp_all

lemma is_datetime_to_datetime: "is_datetime (to_datetime env c)"
  by (cases c) simp_all

lemma time_fields_not_date_like:
  assumes "k \<in> set time_fields"
  shows "\<not> date_like k"
proof -
  have y: "\<not> date_like ''year''" by (simp add: date_like_def lower_def lower_char_def)
  have q: "\<not> date_like ''quarter''" by (simp add: date_like_def lower_def lower_char_def)
  have m: "\<not> date_like ''month''" by (simp add: date_like_def lower_def lower_char_def)
  from assms have "k = ''year'' \<or> k = ''quarter'' \<or> k = ''month''"
    by (simp add: time_fields_def)
  with y q m show ?thesis by blast
qed

lemma csv_table_drop_duplicates:
  assumes "csv_table df"
  shows "csv_table (drop_duplicates df)"
proof -
  have "distinct (columns (drop_duplicates df))"
    using assms by (simp add: csv_table_def columns_drop_duplicates)
  moreover have "list_all (\<lambda>(n, c). \<not> is_datetime c) (drop_duplicates df)"
    using assms
    by (auto simp: csv_table_def drop_duplicates_def filter_rows_def list_all_iff is_datetime_select)
  ultimately show ?thesis by (simp add: csv_table_def)
qed

lemma dt_cols_parsed:
  assumes "csv_table df" "k \<in> set (dt_cols (parse_date_columns env df))"
  shows "date_like k"
proof -
  have dist: "distinct (columns df)" using assms(1) by (simp add: csv_table_def)
  have d: "distinct (filter date_like (columns df))" using dist by simp
  have eq: "parse_date_columns env df =
        map (\<lambda>(n, c). if n \<in> set (filter date_like (columns df)) then (n, to_datetime env c) else (n, c)) df"
    unfolding parse_date_columns_def by (rule assign_each_map[OF dist d])
  from assms(2) obtain c' where c': "(k, c') \<in> set (parse_date_columns env df)" "is_datetime c'"
    by (auto simp: dt_cols_def)
  from c'(1) obtain c where c: "(k, c) \<in> set df"
    "c' = (if k \<in> set (filter date_like (columns df)) then to_datetime env c else c)"
    unfolding eq by (auto split: if_splits)
  have "\<not> is_datetime c" using assms(1) c(1) by (auto simp: csv_table_def list_all_iff)
  with c(2) c'(2) show ?thesis by (auto split: if_splits)
qed

lemma fill_year_ok:
  assumes "csv_table df"
  shows "\<exists>out. fill_year_qtr_month_from_date env (parse_date_columns env df) = Inr out"
proof -
  have "\<not> list_ex (\<lambda>k. k \<in> set (dt_cols (parse_date_columns env df))) time_fields"
    using dt_cols_parsed[OF assms] time_fields_not_date_like by (auto simp: list_ex_iff)
  then show ?thesis by (simp add: fill_year_qtr_month_from_date_def Let_def)
qed

text \<open>
  Claim C10. For every table as \<^verbatim>\<open>read_csv\<close> returns it (distinct column names, no datetime
  column), \<^verbatim>\<open>minimal_clean_with_dates\<close> returns a table, and its column names are those of
  the input after duplicate removal, in the same order, which are the column names of the
  input.
\<close>

theorem minimal_clean_keeps_columns:
  assumes "csv_table input"
  shows "\<exists>out. minimal_clean_with_dates env input = Inr out
           \<and> columns out = columns (drop_duplicates input)
           \<and> columns (drop_duplicates input) = columns input"
proof -
  have csv: "csv_table (drop_duplicates input)" using assms by (rule csv_table_drop_duplicates)
  from fill_year_ok[OF csv] obtain df where
    df: "fill_year_qtr_month_from_date env (parse_date_columns env (drop_duplicates input)) = Inr df"
    by blast
  have c1: "columns df = columns (drop_duplicates input)"
    using columns_fill_year[OF df] by (simp add: parse_date_columns_def columns_assign_each)
  let ?out = "ensure_int_time_fields env (fill_object_missing (fill_numeric_medians df))"
  have run: "minimal_clean_with_dates env input = Inr ?out"
    using df by (simp add: minimal_clean_with_dates_def)
  have c2: "columns ?out = columns df"
    by (simp add: ensure_int_time_fields_def fill_object_missing_def fill_numeric_medians_def
        columns_assign_each)
  from run c1 c2 show ?thesis by (simp add: columns_drop_duplicates)
qed

text \<open>The theorem at the table of the previous example.\<close>

theorem minimal_clean_keeps_columns_witness:
  "csv_table ex_bad_year
   \<and> (\<exists>out. minimal_clean_with_dates simple_pandas ex_bad_year = Inr out
           \<and> columns out = [''year'', ''lease_date'', ''rent''])
   \<and> columns ex_bad_year = [''year'', ''lease_date'', ''rent'']"
proof -
  have h: "csv_table ex_bad_year" by (simp add: csv_table_def ex_bad_year_def columns_def)
  have c: "columns ex_bad_year = [''year'', ''lease_date'', ''rent'']"
    by (simp add: ex_bad_year_def columns_def)
  from minimal_clean_keeps_columns[OF h, of simple_pandas] obtain out where
    o: "minimal_clean_with_dates simple_pandas ex_bad_year = Inr out"
       "columns out = columns (drop_duplicates ex_bad_year)"
       "columns (drop_duplicates ex_bad_year) = columns ex_bad_year"
    by blast
  from o c have "\<exists>out. minimal_clean_with_dates simple_pandas ex_bad_year = Inr out
           \<and> columns out = [''year'', ''lease_date'', ''rent'']"
    by simp
  with h c show ?thesis by blast
qed


section \<open>Year, quarter and month from the dates\<close>

lemma set_at_map:
  assumes "distinct (columns df)"
  shows "set_at df i k v = map (\<lambda>(n, c). if n = k then (n, col_set_int i v c) else (n, c)) df"
  unfolding set_at_def using assign_step[OF assms, of k "\<lambda>k. col_set_int i v"] by simp

lemma cond_set_at_map:
  assumes "distinct (columns df)"
  shows "(if b then set_at df i k v else df)
       = map (\<lambda>(n, c). (n, if b \<and> n = k then col_set_int i v c else c)) df"
proof (cases b)
  case True
  have "map (\<lambda>(n, c). if n = k then (n, col_set_int i v c) else (n, c)) df
      = map (\<lambda>(n, c). (n, if True \<and> n = k then col_set_int i v c else c)) df"
    by (intro map_cong[OF refl]) auto
  with True show ?thesis by (simp add: set_at_map[OF assms])
next
  case False
  have "map (\<lambda>(n, c). (n, if False \<and> n = k then col_set_int i v c else c)) df = map (\<lambda>x. x) df"
    by (intro map_cong[OF refl]) auto
  with False show ?thesis by simp
qed

lemma row_has_eq:
  assumes "distinct (columns df)" "(k, c) \<in> set df"
  shows "row_has df i k = (\<not> isnull c ! i)"
  using lookup_distinct[OF assms] by (simp add: row_has_def)

lemma has_col_mem: "(k, c) \<in> set df \<Longrightarrow> has_col df k"
  by (force simp: has_col_def columns_def)

lemma fill_row_map:
  assumes dist: "distinct (columns df)"
  shows "fill_row dts i df = map (\<lambda>(n, c). (n, row_step df dts i n c)) df"
proof -
  have same: "map (\<lambda>(n, c). (n, row_step df dts i n c)) df = df"
    if "\<And>n c. (n, c) \<in> set df \<Longrightarrow> row_step df dts i n c = c"
  proof -
    have "map (\<lambda>(n, c). (n, row_step df dts i n c)) df = map (\<lambda>x. x) df"
      using that by (intro map_cong[OF refl]) auto
    then show ?thesis by simp
  qed
  show ?thesis
  proof (cases "row_has df i ''year'' \<and> row_has df i ''quarter'' \<and> row_has df i ''month''")
    case True
    have "row_step df dts i n c = c" if nc: "(n, c) \<in> set df" for n c
    proof (cases "n \<in> set time_fields")
      case False
      then show ?thesis by (simp add: row_step_def)
    next
      case tf: True
      then have "row_has df i n" using True by (auto simp: time_fields_def)
      then have "\<not> isnull c ! i" using row_has_eq[OF dist nc] by simp
      then show ?thesis by (simp add: row_step_def)
    qed
    from same[OF this] True show ?thesis by (simp add: fill_row_unfold)
  next
    case notall: False
    show ?thesis
    proof (cases "first_valid_date df i dts")
      case None
      then have "row_step df dts i n c = c" for n c by (simp add: row_step_def)
      from same[OF this] notall None show ?thesis by (simp add: fill_row_unfold)
    next
      case (Some d)
      let ?by = "has_col df ''year'' \<and> \<not> row_has df i ''year''"
      let ?bm = "has_col df ''month'' \<and> \<not> row_has df i ''month''"
      let ?bq = "has_col df ''quarter'' \<and> \<not> row_has df i ''quarter''"
      let ?h1 = "\<lambda>n c. if ?by \<and> n = ''year'' then col_set_int i (ts_year d) c else c"
      let ?h2 = "\<lambda>n c. if ?bm \<and> n = ''month'' then col_set_int i (month_num (ts_month d)) c else c"
      let ?h3 = "\<lambda>n c. if ?bq \<and> n = ''quarter'' then col_set_int i (quarter d) c else c"
      define df1 where "df1 = (if ?by then set_at df i ''year'' (ts_year d) else df)"
      define df2 where "df2 = (if ?bm then set_at df1 i ''month'' (month_num (ts_month d)) else df1)"
      define df3 where "df3 = (if ?bq then set_at df2 i ''quarter'' (quarter d) else df2)"
      have e1: "df1 = map (\<lambda>(n, c). (n, ?h1 n c)) df"
        unfolding df1_def by (rule cond_set_at_map[OF dist])
      have d1: "distinct (columns df1)" unfolding e1 using dist by (simp add: columns_map_keep)
      have e2: "df2 = map (\<lambda>(n, c). (n, ?h2 n c)) df1"
        unfolding df2_def by (rule cond_set_at_map[OF d1])
      have d2: "distinct (columns df2)" unfolding e2 using d1 by (simp add: columns_map_keep)
      have e3: "df3 = map (\<lambda>(n, c). (n, ?h3 n c)) df2"
        unfolding df3_def by (rule cond_set_at_map[OF d2])
      have run: "fill_row dts i df = df3"
        using notall Some by (simp add: fill_row_unfold Let_def df3_def df2_def df1_def)
      have comp: "df3 = map (\<lambda>(n, c). (n, ?h3 n (?h2 n (?h1 n c)))) df"
        unfolding e3 e2 e1 by (simp add: comp_def case_prod_unfold)
      have pt: "?h3 n (?h2 n (?h1 n c)) = row_step df dts i n c" if nc: "(n, c) \<in> set df" for n c
      proof -
        have hc: "has_col df n" using nc by (rule has_col_mem)
        have rh: "row_has df i n = (\<not> isnull c ! i)" by (rule row_has_eq[OF dist nc])
        consider (y) "n = ''year''" | (m) "n = ''month''" | (q) "n = ''quarter''"
          | (other) "n \<notin> set time_fields"
          by (auto simp: time_fields_def)
        then show ?thesis
        proof cases
          case y
          then show ?thesis using hc rh Some
            by (simp add: row_step_def time_fields_def field_of_def)
        next
          case m
          then show ?thesis using hc rh Some
            by (simp add: row_step_def time_fields_def field_of_def)
        next
          case q
          then show ?thesis using hc rh Some
            by (simp add: row_step_def time_fields_def field_of_def)
        next
          case other
          then show ?thesis by (auto simp: row_step_def time_fields_def)
        qed
      qed
      have "map (\<lambda>(n, c). (n, ?h3 n (?h2 n (?h1 n c)))) df = map (\<lambda>(n, c). (n, row_step df dts i n c)) df"
        using pt by (intro map_cong[OF refl]) auto
      with run comp show ?thesis by simp
    qed
  qed
qed


lemma get_col_map_gen:
  "get_col (map (\<lambda>(n, c). (n, f n c)) df) k = map_option (f k) (get_col df k)"
  by (induction df) (auto simp: get_col_def)

lemma first_valid_date_cong:
  assumes "\<And>c. c \<in> set dts \<Longrightarrow> get_col df' c = get_col df c"
  shows "first_valid_date df' i dts = first_valid_date df i dts"
  using assms
proof (induction dts)
  case Nil
  show ?case by simp
next
  case (Cons c cs)
  have "date_at df' i c = date_at df i c" using Cons.prems[of c] by (simp add: date_at_def)
  moreover have "first_valid_date df' i cs = first_valid_date df i cs"
    using Cons.IH Cons.prems by simp
  ultimately show ?case by (simp split: option.split)
qed

lemma row_step_other: "n \<notin> set time_fields \<Longrightarrow> row_step df dts i n c = c"
  by (simp add: row_step_def)

lemma fill_rows_map:
  assumes "distinct (columns df)" and "set dts \<inter> set time_fields = {}"
  shows "fold (fill_row dts) idxs df =
         map (\<lambda>(n, c). (n, if n \<in> set time_fields
                           then fill_from (\<lambda>i. map_option (field_of n) (first_valid_date df i dts)) idxs c
                           else c)) df"
  using assms(1)
proof (induction idxs arbitrary: df)
  case Nil
  have "map (\<lambda>(n, c). (n, if n \<in> set time_fields
            then fill_from (\<lambda>i. map_option (field_of n) (first_valid_date df i dts)) [] c else c)) df
        = map (\<lambda>x. x) df"
    by (intro map_cong[OF refl]) auto
  then show ?case by simp
next
  case (Cons i idxs)
  let ?df' = "map (\<lambda>(n, c). (n, row_step df dts i n c)) df"
  have step: "fill_row dts i df = ?df'" by (rule fill_row_map[OF Cons.prems])
  have d': "distinct (columns ?df')" using Cons.prems by (simp add: columns_map_keep)
  have same: "first_valid_date ?df' j dts = first_valid_date df j dts" for j
  proof (rule first_valid_date_cong)
    fix c assume "c \<in> set dts"
    then have "c \<notin> set time_fields" using assms(2) by auto
    then have "map_option (row_step df dts i c) (get_col df c) = get_col df c"
      by (cases "get_col df c") (simp_all add: row_step_other)
    then show "get_col ?df' c = get_col df c" by (simp add: get_col_map_gen)
  qed
  have "fold (fill_row dts) (i # idxs) df = fold (fill_row dts) idxs ?df'"
    using step by simp
  also have "\<dots> = map (\<lambda>(n, c). (n, if n \<in> set time_fields
                           then fill_from (\<lambda>i. map_option (field_of n) (first_valid_date ?df' i dts)) idxs c
                           else c)) ?df'"
    by (rule Cons.IH[OF d'])
  also have "\<dots> = map (\<lambda>(n, c). (n, if n \<in> set time_fields
                           then fill_from (\<lambda>i. map_option (field_of n) (first_valid_date df i dts)) (i # idxs) c
                           else c)) df"
    unfolding same map_map
  proof (rule map_cong[OF refl])
    fix x assume "x \<in> set df"
    obtain n c where nc: "x = (n, c)" by (cases x)
    show "((\<lambda>(n, c). (n, if n \<in> set time_fields
                then fill_from (\<lambda>i. map_option (field_of n) (first_valid_date df i dts)) idxs c
                else c)) \<circ> (\<lambda>(n, c). (n, row_step df dts i n c))) x
        = (case x of (n, c) \<Rightarrow> (n, if n \<in> set time_fields
                then fill_from (\<lambda>i. map_option (field_of n) (first_valid_date df i dts)) (i # idxs) c
                else c))"
    proof (cases "n \<in> set time_fields")
      case False
      with nc show ?thesis by (simp add: row_step_other)
    next
      case True
      have "row_step df dts i n c =
            (if isnull c ! i
             then (case map_option (field_of n) (first_valid_date df i dts) of
                     None \<Rightarrow> c | Some v \<Rightarrow> col_set_int i v c)
             else c)"
        using True by (cases "first_valid_date df i dts") (simp_all add: row_step_def)
      with nc True show ?thesis by simp
    qed
  qed
  finally show ?case .
qed









lemma finish_int: "astype_int_ignore env (fillna0 (IntCol xs)) = IntCol xs"
  by simp







section \<open>Missing numeric values\<close>

lemma fill_year_other:
  assumes dist: "distinct (columns df)" and sep: "set (dt_cols df) \<inter> set time_fields = {}"
    and k: "k \<notin> set time_fields" and g: "get_col df k = Some c"
  shows "\<exists>out. fill_year_qtr_month_from_date env df = Inr out \<and> get_col out k = Some c
           \<and> distinct (columns out)"
proof (cases "dt_cols df = []")
  case True
  with g dist show ?thesis by (simp add: fill_year_qtr_month_from_date_def)
next
  case False
  let ?dts = "dt_cols df"
  let ?g = "\<lambda>n i. map_option (field_of n) (first_valid_date df i ?dts)"
  let ?mid = "map (\<lambda>(n, c). (n, if n \<in> set time_fields then fill_from (?g n) [0..<nrows df] c else c)) df"
  let ?out = "zero_fill_time_fields env ?mid"
  have guard: "\<not> list_ex (\<lambda>k. k \<in> set ?dts) time_fields" using sep by (auto simp: list_ex_iff)
  have mid: "fold (fill_row ?dts) [0..<nrows df] df = ?mid" by (rule fill_rows_map[OF dist sep])
  have run: "fill_year_qtr_month_from_date env df = Inr ?out"
    using False guard mid by (simp add: fill_year_qtr_month_from_date_def Let_def)
  have dmid: "distinct (columns ?mid)" using dist by (simp add: columns_map_keep)
  have gm: "get_col ?mid k = Some c" using g k by (simp add: get_col_map_gen)
  have "get_col ?out k =
        Some (if k \<in> set (filter (has_col ?mid) time_fields) then astype_int_ignore env (fillna0 c) else c)"
    unfolding zero_fill_time_fields_def
    by (rule get_col_assign_each[OF dmid distinct_time_fields gm])
  then have "get_col ?out k = Some c" using k by simp
  moreover have "distinct (columns ?out)"
    using dmid by (simp add: zero_fill_time_fields_def columns_assign_each)
  ultimately show ?thesis using run by blast
qed

lemma time_fields_lower:
  assumes "k \<in> set time_fields"
  shows "lower k = k"
proof -
  have "lower ''year'' = ''year''" "lower ''quarter'' = ''quarter''" "lower ''month'' = ''month''"
    by (simp_all add: lower_def lower_char_def)
  with assms show ?thesis by (auto simp: time_fields_def)
qed

lemma fillna_no_gap: "None \<notin> set (fillna v xs)"
  by (auto simp: fillna_def split: option.splits)

lemma fill_median_float:
  assumes "present xs \<noteq> []"
  shows "\<exists>md. median xs = Some md \<and> fill_median (FloatCol xs) = FloatCol (fillna md xs)
             \<and> fill_group_col env (FloatCol xs) = FloatCol (fillna md xs)"
proof -
  from median_Some[OF assms] obtain md where "median xs = Some md" by blast
  then show ?thesis by simp
qed

lemma fill_missing_text_float: "fill_missing_text (FloatCol xs) = FloatCol xs"
  by simp

lemma minimal_clean_float_column:
  assumes csv: "csv_table input"
    and g: "get_col (drop_duplicates input) k = Some (FloatCol xs)"
    and nd: "\<not> date_like k" and nt: "lower k \<notin> set time_fields" and ne: "present xs \<noteq> []"
  shows "\<exists>out md. minimal_clean_with_dates env input = Inr out \<and> median xs = Some md
            \<and> get_col out k = Some (FloatCol (fillna md xs))"
proof -
  let ?dd = "drop_duplicates input"
  let ?p = "parse_date_columns env ?dd"
  have csv': "csv_table ?dd" using csv by (rule csv_table_drop_duplicates)
  have dist: "distinct (columns ?dd)" using csv' by (simp add: csv_table_def)
  have k: "k \<notin> set time_fields" using nt time_fields_lower by force
  have dp: "distinct (columns ?p)" using dist by (simp add: parse_date_columns_def columns_assign_each)
  have "get_col ?p k = Some (if k \<in> set (filter date_like (columns ?dd))
                            then to_datetime env (FloatCol xs) else FloatCol xs)"
    unfolding parse_date_columns_def
    by (rule get_col_assign_each[OF dist _ g]) (use dist in simp)
  then have gp: "get_col ?p k = Some (FloatCol xs)" using nd by simp
  have sep: "set (dt_cols ?p) \<inter> set time_fields = {}"
    using dt_cols_parsed[OF csv'] time_fields_not_date_like by blast
  from fill_year_other[OF dp sep k gp] obtain df3 where
    run3: "fill_year_qtr_month_from_date env ?p = Inr df3"
    and g3: "get_col df3 k = Some (FloatCol xs)" and d3: "distinct (columns df3)"
    by blast
  from fill_median_float[OF ne] obtain md where
    md: "median xs = Some md" "fill_median (FloatCol xs) = FloatCol (fillna md xs)"
    by blast
  let ?ks4 = "filter (\<lambda>k. lower k \<notin> set time_fields) (number_columns df3)"
  let ?df4 = "fill_numeric_medians df3"
  have mem3: "(k, FloatCol xs) \<in> set df3" using g3 by (simp add: get_col_def map_of_SomeD)
  have "k \<in> set (number_columns df3)"
    using number_columns_mem[OF d3 mem3] by (simp add: is_number_def)
  then have kin: "k \<in> set ?ks4" using nt by simp
  have dks4: "distinct ?ks4"
    using d3 by (simp add: number_columns_def columns_def distinct_map_filter)
  have "get_col ?df4 k = Some (if k \<in> set ?ks4 then fill_median (FloatCol xs) else FloatCol xs)"
    unfolding fill_numeric_medians_def by (rule get_col_assign_each[OF d3 dks4 g3])
  then have g4: "get_col ?df4 k = Some (FloatCol (fillna md xs))" using kin md(2) by simp
  have d4: "distinct (columns ?df4)"
    using d3 by (simp add: fill_numeric_medians_def columns_assign_each)
  let ?df5 = "fill_object_missing ?df4"
  have dks5: "distinct (object_columns ?df4)"
    using d4 by (simp add: object_columns_def columns_def distinct_map_filter)
  have "get_col ?df5 k = Some (if k \<in> set (object_columns ?df4)
                               then fill_missing_text (FloatCol (fillna md xs))
                               else FloatCol (fillna md xs))"
    unfolding fill_object_missing_def by (rule get_col_assign_each[OF d4 dks5 g4])
  then have g5: "get_col ?df5 k = Some (FloatCol (fillna md xs))" by simp
  have d5: "distinct (columns ?df5)"
    using d4 by (simp add: fill_object_missing_def columns_assign_each)
  let ?df6 = "ensure_int_time_fields env ?df5"
  have "get_col ?df6 k = Some (if k \<in> set (filter (has_col ?df5) time_fields)
                               then to_numeric_ignore env True (FloatCol (fillna md xs))
                               else FloatCol (fillna md xs))"
    unfolding ensure_int_time_fields_def by (rule get_col_assign_each[OF d5 distinct_time_fields g5])
  then have g6: "get_col ?df6 k = Some (FloatCol (fillna md xs))" using k by simp
  have "minimal_clean_with_dates env input = Inr ?df6"
    using run3 by (simp add: minimal_clean_with_dates_def)
  with md(1) g6 show ?thesis by blast
qed


lemma drop_sparse_ok:
  assumes "well_formed g" "0 < nrows g"
  shows "\<exists>kept. drop_sparse g = Inr kept \<and> distinct (columns kept)"
proof -
  from year_is_2018_ok[OF assms] obtain y where y: "year_is_2018 g = Inr y" by blast
  from thresholds_value[OF assms y] obtain p where "thresholds g = Inr p" by blast
  then obtain rt ct where th: "thresholds g = Inr (rt, ct)" by (cases p) simp
  let ?kept = "map (\<lambda>(n, c). (n, col_select (map (\<lambda>i. rt \<le> completeness g i) [0..<nrows g]) c))
                   (filter (\<lambda>(n, c). missingness c < ct) g)"
  have ds: "drop_sparse g = Inr ?kept" by (rule drop_sparse_shape[OF assms th])
  have "distinct (columns g)" using assms(1) by (simp add: well_formed_def)
  then have "distinct (columns ?kept)"
    by (simp add: columns_map_keep) (simp add: columns_def distinct_map_filter)
  with ds show ?thesis by blast
qed

text \<open>
  Claim C6, as amended. In the minimal pipeline, for a table as \<^verbatim>\<open>read_csv\<close> returns it,
  every float column of the table after duplicate removal that is not date-like by name, is
  not named \<^verbatim>\<open>year\<close>, \<^verbatim>\<open>quarter\<close> or \<^verbatim>\<open>month\<close> (in any case) and has at least one
  value comes out with each missing cell replaced by the median of the column over the whole
  table, and so without a missing cell. In the group cleaner, for a group with at least one
  row, every float column that is kept and has at least one value in the rows that are kept
  comes out with each missing cell replaced by the median of these values, and so without a
  missing cell. (An integer column has no missing cell to begin with.)
\<close>

theorem missing_numeric_filled:
  assumes "csv_table input" and "well_formed g" and "0 < nrows g"
  shows "(\<exists>out. minimal_clean_with_dates env input = Inr out
            \<and> (\<forall>k xs. get_col (drop_duplicates input) k = Some (FloatCol xs)
                   \<and> \<not> date_like k \<and> lower k \<notin> set time_fields \<and> present xs \<noteq> [] \<longrightarrow>
                 (\<exists>md. median xs = Some md
                      \<and> get_col out k = Some (FloatCol (fillna md xs))
                      \<and> None \<notin> set (fillna md xs))))
       \<and> (\<exists>kept res. drop_sparse g = Inr kept \<and> dynamic_clean_group env g = Inr res
            \<and> (\<forall>k xs. get_col kept k = Some (FloatCol xs) \<and> present xs \<noteq> [] \<longrightarrow>
                 (\<exists>md. median xs = Some md
                      \<and> get_col res k = Some (FloatCol (fillna md xs))
                      \<and> None \<notin> set (fillna md xs))))"
proof
  have csv': "csv_table (drop_duplicates input)" using assms(1) by (rule csv_table_drop_duplicates)
  from fill_year_ok[OF csv'] obtain df3 where
    "fill_year_qtr_month_from_date env (parse_date_columns env (drop_duplicates input)) = Inr df3"
    by blast
  then obtain out where out: "minimal_clean_with_dates env input = Inr out"
    by (simp add: minimal_clean_with_dates_def)
  have "\<exists>md. median xs = Some md \<and> get_col out k = Some (FloatCol (fillna md xs))
             \<and> None \<notin> set (fillna md xs)"
    if "get_col (drop_duplicates input) k = Some (FloatCol xs)
        \<and> \<not> date_like k \<and> lower k \<notin> set time_fields \<and> present xs \<noteq> []" for k xs
  proof -
    from that minimal_clean_float_column[OF assms(1), of k xs env] obtain out' md where
      o: "minimal_clean_with_dates env input = Inr out'" "median xs = Some md"
         "get_col out' k = Some (FloatCol (fillna md xs))"
      by blast
    from o(1) out have "out' = out" by simp
    with o fillna_no_gap[of md xs] show ?thesis by blast
  qed
  with out show "\<exists>out. minimal_clean_with_dates env input = Inr out
            \<and> (\<forall>k xs. get_col (drop_duplicates input) k = Some (FloatCol xs)
                   \<and> \<not> date_like k \<and> lower k \<notin> set time_fields \<and> present xs \<noteq> [] \<longrightarrow>
                 (\<exists>md. median xs = Some md
                      \<and> get_col out k = Some (FloatCol (fillna md xs))
                      \<and> None \<notin> set (fillna md xs)))"
    by blast
next
  from drop_sparse_ok[OF assms(2,3)] obtain kept where
    ds: "drop_sparse g = Inr kept" and dk: "distinct (columns kept)" by blast
  let ?res = "assign_each (\<lambda>k. fill_group_col env) (columns kept) kept"
  have dc: "dynamic_clean_group env g = Inr ?res" using ds by (simp add: dynamic_clean_group_def)
  have "\<exists>md. median xs = Some md \<and> get_col ?res k = Some (FloatCol (fillna md xs))
             \<and> None \<notin> set (fillna md xs)"
    if "get_col kept k = Some (FloatCol xs) \<and> present xs \<noteq> []" for k xs
  proof -
    from that have gk: "get_col kept k = Some (FloatCol xs)" and ne: "present xs \<noteq> []" by simp_all
    from fill_median_float[OF ne, of env] obtain md where
      md: "median xs = Some md" "fill_group_col env (FloatCol xs) = FloatCol (fillna md xs)"
      by blast
    have "has_col kept k" using gk by (rule get_col_has_col)
    then have kin: "k \<in> set (columns kept)" by (simp add: has_col_def)
    have "get_col ?res k = Some (if k \<in> set (columns kept) then fill_group_col env (FloatCol xs)
                                 else FloatCol xs)"
      by (rule get_col_assign_each[OF dk dk gk])
    then have "get_col ?res k = Some (FloatCol (fillna md xs))" using kin md(2) by simp
    with md(1) fillna_no_gap[of md xs] show ?thesis by blast
  qed
  with ds dc show "\<exists>kept res. drop_sparse g = Inr kept \<and> dynamic_clean_group env g = Inr res
            \<and> (\<forall>k xs. get_col kept k = Some (FloatCol xs) \<and> present xs \<noteq> [] \<longrightarrow>
                 (\<exists>md. median xs = Some md
                      \<and> get_col res k = Some (FloatCol (fillna md xs))
                      \<and> None \<notin> set (fillna md xs)))"
    by blast
qed


text \<open>
  The theorem at a table whose rent column has one gap (filled with the median 20) and at
  the group of the year 2019 above (the gap left in the kept rows is filled with 25).
\<close>

theorem missing_numeric_filled_witness:
  "csv_table ex_gaps \<and> well_formed ex_group \<and> 0 < nrows ex_group
   \<and> (\<exists>out. minimal_clean_with_dates simple_pandas ex_gaps = Inr out
          \<and> get_col out ''rent'' = Some (FloatCol [Some 10, Some 20, Some 30, Some 20]))
   \<and> (\<exists>kept res. drop_sparse ex_group = Inr kept
          \<and> dynamic_clean_group simple_pandas ex_group = Inr res
          \<and> get_col kept ''rent'' = Some (FloatCol [Some 10, None, Some 40])
          \<and> get_col res ''rent'' = Some (FloatCol [Some 10, Some 25, Some 40]))"
proof -
  let ?xs = "[Some 10, None, Some 30, Some (20::real)]"
  let ?zs = "[Some 10, None, Some (40::real)]"
  have h1: "csv_table ex_gaps" by code_simp
  have h2: "well_formed ex_group" by code_simp
  have h3: "0 < nrows ex_group" by code_simp
  have a1: "get_col (drop_duplicates ex_gaps) ''rent'' = Some (FloatCol ?xs)" by code_simp
  have a2: "\<not> date_like ''rent''" by (simp add: date_like_def lower_def lower_char_def)
  have a3: "lower ''rent'' \<notin> set time_fields" by (simp add: time_fields_def lower_def lower_char_def)
  have a4: "present ?xs \<noteq> []" by (simp add: present_def)
  have m1: "median ?xs = Some 20" by code_simp
  have b1: "drop_sparse ex_group =
     Inr [(''market'', ObjCol [Some (PStr ''Austin''), Some (PStr ''Austin''), Some (PStr ''Austin'')]),
          (''year'', IntCol [2019, 2019, 2019]),
          (''rent'', FloatCol ?zs),
          (''sqft'', FloatCol [Some 500, Some 700, Some 800]),
          (''floor'', FloatCol [Some 1, Some 3, Some 4])]"
    by code_simp
  have b4: "present ?zs \<noteq> []" by (simp add: present_def)
  have m2: "median ?zs = Some 25" by code_simp
  from missing_numeric_filled[OF h1 h2 h3, of simple_pandas] obtain out kept res where
    run: "minimal_clean_with_dates simple_pandas ex_gaps = Inr out"
    and fl: "\<forall>k xs. get_col (drop_duplicates ex_gaps) k = Some (FloatCol xs)
                   \<and> \<not> date_like k \<and> lower k \<notin> set time_fields \<and> present xs \<noteq> [] \<longrightarrow>
                 (\<exists>md. median xs = Some md
                      \<and> get_col out k = Some (FloatCol (fillna md xs))
                      \<and> None \<notin> set (fillna md xs))"
    and ds: "drop_sparse ex_group = Inr kept"
    and dc: "dynamic_clean_group simple_pandas ex_group = Inr res"
    and gl: "\<forall>k xs. get_col kept k = Some (FloatCol xs) \<and> present xs \<noteq> [] \<longrightarrow>
                 (\<exists>md. median xs = Some md
                      \<and> get_col res k = Some (FloatCol (fillna md xs))
                      \<and> None \<notin> set (fillna md xs))"
    by blast
  from fl[rule_format, of "''rent''" ?xs] a1 a2 a3 a4 m1
  have "get_col out ''rent'' = Some (FloatCol (fillna 20 ?xs))" by auto
  then have o: "get_col out ''rent'' = Some (FloatCol [Some 10, Some 20, Some 30, Some 20])"
    by (simp add: fillna_def)
  from ds b1 have k: "get_col kept ''rent'' = Some (FloatCol ?zs)" by (auto simp: get_col_def)
  from gl[rule_format, of "''rent''" ?zs] k b4 m2
  have "get_col res ''rent'' = Some (FloatCol (fillna 25 ?zs))" by auto
  then have r: "get_col res ''rent'' = Some (FloatCol [Some 10, Some 25, Some 40])"
    by (simp add: fillna_def)
  from h1 h2 h3 run o ds dc k r show ?thesis by blast
qed

text \<open>
  Claim C6 as stated fails in the minimal pipeline: a numeric column with no value at all has
  no median and is written out as it was, and a missing year in a table without a date column
  is neither filled with a median (the time fields are exempt) nor set to 0.
\<close>

theorem missing_numeric_counterexample:
  "minimal_clean_with_dates simple_pandas ex_empty_col =
     Inr [(''id'', IntCol [1, 2]), (''rent'', FloatCol [None, None])]
   \<and> minimal_clean_with_dates simple_pandas ex_no_dates =
     Inr [(''year'', FloatCol [Some 2019, None]), (''rate'', FloatCol [Some 3.5, Some 8.1])]"
  by code_simp


end
